theory Spec2Isabelle
  imports Complex_Main "HOL-Library.Sublist" "HOL-Library.Monad_Syntax"
begin

section \<open>JavaScript values\<close>

text \<open>
  The TypeScript types of the application are erased at run time: what is read back from
  \<^verbatim>\<open>localStorage\<close>, what the validators receive (\<^verbatim>\<open>loc: any\<close>) and what the
  messages of a conversation hold are plain JavaScript values. They are modelled as such:
  the values that \<^verbatim>\<open>JSON.parse\<close> and the object literals of the application produce,
  and \<^verbatim>\<open>undefined\<close>.

  A string is its sequence of UTF-16 code units, each written as a natural number;
  \<open>js\<close> turns an ASCII literal of the source into that form.
\<close>

type_synonym jstring = "nat list"

definition js :: "string \<Rightarrow> jstring" where
  "js s = map of_char s"

text \<open>
  A number is NaN, one of the two infinities, or a finite double, given by its value.
\<close>

datatype jsnum = NaN | PosInfinity | NegInfinity | Finite rat

text \<open>
  An object is the list of its own properties in property order; a property may be present
  and hold \<^verbatim>\<open>undefined\<close>.
\<close>

datatype jsval =
    JUndefined
  | JNull
  | JBool bool
  | JNum jsnum
  | JStr jstring
  | JArr "jsval list"
  | JObj "(jstring \<times> jsval) list"

text \<open>
  Exceptions are values. \<open>TypeError\<close> and \<open>SyntaxError\<close> are the engine's own
  (reading a property of \<^verbatim>\<open>null\<close>, calling what is not a function, a malformed JSON
  text); \<open>Error m\<close> is an error object with message \<open>m\<close>.
\<close>

datatype jserror = TypeError | SyntaxError | Error jstring

fun typeof :: "jsval \<Rightarrow> string" where
  "typeof JUndefined = ''undefined''"
| "typeof JNull = ''object''"
| "typeof (JBool b) = ''boolean''"
| "typeof (JNum n) = ''number''"
| "typeof (JStr s) = ''string''"
| "typeof (JArr xs) = ''object''"
| "typeof (JObj kvs) = ''object''"

fun truthy :: "jsval \<Rightarrow> bool" where
  "truthy JUndefined = False"
| "truthy JNull = False"
| "truthy (JBool b) = b"
| "truthy (JNum n) = (n \<noteq> NaN \<and> n \<noteq> Finite 0)"
| "truthy (JStr s) = (s \<noteq> [])"
| "truthy (JArr xs) = True"
| "truthy (JObj kvs) = True"

fun isNullish :: "jsval \<Rightarrow> bool" where
  "isNullish JUndefined = True"
| "isNullish JNull = True"
| "isNullish v = False"

fun lookup :: "(jstring \<times> jsval) list \<Rightarrow> jstring \<Rightarrow> jsval" where
  "lookup [] k = JUndefined"
| "lookup ((k', v) # kvs) k = (if k' = k then v else lookup kvs k)"

text \<open>
  \<open>propOf v k\<close> is \<^verbatim>\<open>v.k\<close> for a value \<open>v\<close> that is neither \<^verbatim>\<open>null\<close> nor
  \<^verbatim>\<open>undefined\<close>, at a key that is no built-in property of strings, arrays or
  \<^verbatim>\<open>Object.prototype\<close> (the keys the application reads: lat, lng, id, role, text,
  messages, suggestedLocation, relatedLocations, maps, uri). \<open>getProp\<close> is the same
  read with the \<^verbatim>\<open>TypeError\<close> of a nullish receiver.
\<close>

fun propOf :: "jsval \<Rightarrow> jstring \<Rightarrow> jsval" where
  "propOf (JObj kvs) k = lookup kvs k"
| "propOf v k = JUndefined"

definition getProp :: "jsval \<Rightarrow> jstring \<Rightarrow> jserror + jsval" where
  "getProp v k = (if isNullish v then Inl TypeError else Inr (propOf v k))"

text \<open>
  A property of an object literal: an existing key keeps its place, a new one goes last.
\<close>

fun setProp :: "jstring \<Rightarrow> jsval \<Rightarrow> (jstring \<times> jsval) list \<Rightarrow> (jstring \<times> jsval) list" where
  "setProp k v [] = [(k, v)]"
| "setProp k v ((k', v') # kvs) =
     (if k' = k then (k, v) # kvs else (k', v') # setProp k v kvs)"

fun showNat :: "nat \<Rightarrow> jstring" where
  "showNat n = (if n < 10 then [48 + n] else showNat (n div 10) @ [48 + n mod 10])"

declare showNat.simps [simp del]

fun indexed :: "nat \<Rightarrow> jsval list \<Rightarrow> (jstring \<times> jsval) list" where
  "indexed i [] = []"
| "indexed i (x # xs) = (showNat i, x) # indexed (Suc i) xs"

text \<open>
  The own enumerable properties that \<^verbatim>\<open>{...v}\<close> copies: those of an object, the
  indexed elements of an array or the indexed code units of a string, none otherwise.
\<close>

fun spread :: "jsval \<Rightarrow> (jstring \<times> jsval) list" where
  "spread (JObj kvs) = kvs"
| "spread (JArr xs) = indexed 0 xs"
| "spread (JStr s) = indexed 0 (map (\<lambda>c. JStr [c]) s)"
| "spread v = []"

text \<open>\<^verbatim>\<open>xs.map(f)\<close> for a callback that may throw: the first exception ends the loop.\<close>

fun mapE :: "('a \<Rightarrow> jserror + 'b) \<Rightarrow> 'a list \<Rightarrow> jserror + 'b list" where
  "mapE f [] = Inr []"
| "mapE f (x # xs) =
     (case f x of
        Inl e \<Rightarrow> Inl e
      | Inr y \<Rightarrow> (case mapE f xs of Inl e \<Rightarrow> Inl e | Inr ys \<Rightarrow> Inr (y # ys)))"

text \<open>\<^verbatim>\<open>xs.find(p)\<close> for a predicate that may throw.\<close>

fun findE :: "('a \<Rightarrow> jserror + bool) \<Rightarrow> 'a list \<Rightarrow> jserror + 'a option" where
  "findE p [] = Inr None"
| "findE p (x # xs) =
     (case p x of
        Inl e \<Rightarrow> Inl e
      | Inr b \<Rightarrow> if b then Inr (Some x) else findE p xs)"

section \<open>Strings: trim, the two coordinate patterns, parseFloat\<close>

definition isDigit :: "nat \<Rightarrow> bool" where
  "isDigit c = (48 \<le> c \<and> c \<le> 57)"

text \<open>
  White space and line terminators of ECMAScript, which \<^verbatim>\<open>trim\<close> strips and the
  pattern class \<^verbatim>\<open>\s\<close> matches: TAB, LF, VT, FF, CR, SP, NBSP, U+1680, U+2000 to U+200A,
  U+2028, U+2029, U+202F, U+205F, U+3000 and U+FEFF.
\<close>

definition isSpace :: "nat \<Rightarrow> bool" where
  "isSpace c = (c \<in> {9, 10, 11, 12, 13, 32, 160, 5760, 8232, 8233, 8239, 8287, 12288, 65279}
                \<or> (8192 \<le> c \<and> c \<le> 8202))"

definition trim :: "jstring \<Rightarrow> jstring" where
  "trim s = rev (dropWhile isSpace (rev (dropWhile isSpace s)))"

text \<open>A literal piece of a pattern, matched at the start of \<open>s\<close>; the rest is returned.\<close>

definition lit :: "jstring \<Rightarrow> jstring \<Rightarrow> jstring option" where
  "lit p s = (if take (length p) s = p then Some (drop (length p) s) else None)"

text \<open>
  The capture group \<^verbatim>\<open>(-?\d+\.?\d*)\<close> at the start of \<open>s\<close>: every quantifier takes all
  it can. The result is the captured text and the rest of \<open>s\<close>.
\<close>

definition scanNumber :: "jstring \<Rightarrow> (jstring \<times> jstring) option" where
  "scanNumber s =
     (let sg = (if take 1 s = [45] then [45] else []);
          r1 = drop (length sg) s;
          ds = takeWhile isDigit r1;
          r2 = dropWhile isDigit r1;
          dot = (if take 1 r2 = [46] then [46] else []);
          r3 = drop (length dot) r2;
          fs = takeWhile isDigit r3
      in if ds = [] then None else Some (sg @ ds @ dot @ fs, dropWhile isDigit r3))"

text \<open>
  \<^verbatim>\<open>COORDINATE_REGEX = /\{\{LAT:(-?\d+\.?\d*),\s*LNG:(-?\d+\.?\d*)\}\}/\<close> tried at the start
  of \<open>s\<close>: the matched text and the two groups.
\<close>

definition COORDINATE_REGEX_at :: "jstring \<Rightarrow> (jstring \<times> jstring \<times> jstring) option" where
  "COORDINATE_REGEX_at s = do {
     r1 \<leftarrow> lit (js ''{{LAT:'') s;
     (g1, r2) \<leftarrow> scanNumber r1;
     r3 \<leftarrow> lit (js '','') r2;
     r4 \<leftarrow> lit (js ''LNG:'') (dropWhile isSpace r3);
     (g2, r5) \<leftarrow> scanNumber r4;
     r6 \<leftarrow> lit (js ''}}'') r5;
     Some (take (length s - length r6) s, g1, g2)
   }"

text \<open>
  The pattern of the place citations, \<^verbatim>\<open>/!3d(-?\d+\.?\d*)!4d(-?\d+\.?\d*)/\<close>, tried at
  the start of \<open>s\<close>.
\<close>

definition MAPS_REGEX_at :: "jstring \<Rightarrow> (jstring \<times> jstring \<times> jstring) option" where
  "MAPS_REGEX_at s = do {
     r1 \<leftarrow> lit (js ''!3d'') s;
     (g1, r2) \<leftarrow> scanNumber r1;
     r3 \<leftarrow> lit (js ''!4d'') r2;
     (g2, r4) \<leftarrow> scanNumber r3;
     Some (take (length s - length r4) s, g1, g2)
   }"

text \<open>
  \<^verbatim>\<open>text.match(re)\<close> for a pattern without the global flag: the match at the leftmost
  position that has one, \<^verbatim>\<open>null\<close> (here \<open>None\<close>) when no position has.
\<close>

fun regexMatch :: "(jstring \<Rightarrow> 'a option) \<Rightarrow> jstring \<Rightarrow> 'a option" where
  "regexMatch re [] = re []"
| "regexMatch re (c # cs) =
     (case re (c # cs) of Some m \<Rightarrow> Some m | None \<Rightarrow> regexMatch re cs)"

text \<open>
  \<^verbatim>\<open>text.replace(pat, '')\<close> with a string \<open>pat\<close>: the first occurrence of \<open>pat\<close> in
  the text is removed; a text without \<open>pat\<close> is returned as it is.
\<close>

fun removeFirst :: "jstring \<Rightarrow> jstring \<Rightarrow> jstring" where
  "removeFirst pat [] = []"
| "removeFirst pat (c # cs) =
     (if take (length pat) (c # cs) = pat then drop (length pat) (c # cs)
      else c # removeFirst pat cs)"

definition digitsValue :: "jstring \<Rightarrow> nat" where
  "digitsValue ds = foldl (\<lambda>acc c. 10 * acc + (c - 48)) 0 ds"

text \<open>
  \<^verbatim>\<open>parseFloat\<close> on the texts the two patterns capture (a sign, digits, a fraction): the
  decimal value read, converted to a double. The conversion is the platform's (IEEE 754,
  round to nearest) and is the parameter \<open>toDouble\<close>: a number literal \<^verbatim>\<open>48.8584\<close> of
  the source denotes \<open>toDouble 48.8584\<close> as well. A text that starts with no digit gives
  NaN.
\<close>

definition parseFloat :: "(rat \<Rightarrow> jsnum) \<Rightarrow> jstring \<Rightarrow> jsnum" where
  "parseFloat toDouble s =
     (let neg = (take 1 s = [45]);
          r1 = (if neg then drop 1 s else s);
          ds = takeWhile isDigit r1;
          r2 = dropWhile isDigit r1;
          fs = (if take 1 r2 = [46] then takeWhile isDigit (drop 1 r2) else []);
          mag = of_nat (digitsValue ds) + of_nat (digitsValue fs) / 10 ^ length fs
      in if ds = [] then NaN else toDouble (if neg then - mag else mag))"

section \<open>The location validators\<close>

fun isFinite :: "jsnum \<Rightarrow> bool" where
  "isFinite (Finite x) = True"
| "isFinite n = False"

text \<open>
  The three tests both validators make of a coordinate \<open>v\<close>:
  \<^verbatim>\<open>typeof v === 'number' && !Number.isNaN(v) && isFinite(v)\<close>.
\<close>

definition finiteNumber :: "jsval \<Rightarrow> bool" where
  "finiteNumber v = (case v of JNum n \<Rightarrow> n \<noteq> NaN \<and> isFinite n | _ \<Rightarrow> False)"

text \<open>\<^verbatim>\<open>isValidStoredLoc\<close> of App.tsx.\<close>

definition isValidStoredLoc :: "jsval \<Rightarrow> bool" where
  "isValidStoredLoc loc =
     (loc \<noteq> JNull \<and> loc \<noteq> JUndefined \<and> typeof loc = ''object'' \<and>
      finiteNumber (propOf loc (js ''lat'')) \<and> finiteNumber (propOf loc (js ''lng'')))"

text \<open>\<^verbatim>\<open>isValidLocation\<close> of the map component.\<close>

definition isValidLocation :: "jsval \<Rightarrow> bool" where
  "isValidLocation loc =
     (loc \<noteq> JNull \<and> loc \<noteq> JUndefined \<and> typeof loc = ''object'' \<and>
      finiteNumber (propOf loc (js ''lat'')) \<and> finiteNumber (propOf loc (js ''lng'')))"

text \<open>The object literal \<^verbatim>\<open>{ lat, lng }\<close>.\<close>

definition geoLocation :: "jsnum \<Rightarrow> jsnum \<Rightarrow> jsval" where
  "geoLocation lat lng = JObj [(js ''lat'', JNum lat), (js ''lng'', JNum lng)]"

section \<open>The AI service call: \<^verbatim>\<open>sendMessageToGemini\<close>\<close>

text \<open>
  What the code reads of the service's response: \<^verbatim>\<open>response.text\<close> (a string, or
  \<^verbatim>\<open>undefined\<close>, here \<open>None\<close>) and the value of
  \<^verbatim>\<open>response.candidates?.[0]?.groundingMetadata?.groundingChunks\<close>.
\<close>

record gen_response =
  response_text :: "jstring option"
  groundingChunks :: jsval

text \<open>
  \<^verbatim>\<open>chatHistory.slice(-10).map(msg => ({ role: msg.role, parts: [{ text: msg.text }] }))\<close>.
\<close>

definition historyEntry :: "jsval \<Rightarrow> jserror + jsval" where
  "historyEntry msg =
     (if isNullish msg then Inl TypeError
      else Inr (JObj [(js ''role'', propOf msg (js ''role'')),
                      (js ''parts'', JArr [JObj [(js ''text'', propOf msg (js ''text''))]])]))"

definition historyContext :: "jsval list \<Rightarrow> jserror + jsval list" where
  "historyContext chatHistory =
     mapE historyEntry (drop (length chatHistory - 10) chatHistory)"

definition fallbackText :: jstring where
  "fallbackText = js ''I couldn't find an answer for that.''"

text \<open>\<^verbatim>\<open>const text = response.text || "I couldn't find an answer for that."\<close>\<close>

definition replyText :: "gen_response \<Rightarrow> jstring" where
  "replyText response =
     (case response_text response of
        None \<Rightarrow> fallbackText
      | Some t \<Rightarrow> if t = [] then fallbackText else t)"

text \<open>
  Lines 88 to 102: the coordinate tag of the reply. \<open>suggestedLocationOf\<close> is the final
  value of the variable \<^verbatim>\<open>suggestedLocation\<close>, \<open>cleanTextOf\<close> that of \<^verbatim>\<open>cleanText\<close>.
\<close>

definition suggestedLocationOf :: "(rat \<Rightarrow> jsnum) \<Rightarrow> jstring \<Rightarrow> jsval" where
  "suggestedLocationOf toDouble txt =
     (case regexMatch COORDINATE_REGEX_at txt of
        None \<Rightarrow> JUndefined
      | Some (m0, g1, g2) \<Rightarrow>
          (let lat = parseFloat toDouble g1; lng = parseFloat toDouble g2
           in if lat \<noteq> NaN \<and> lng \<noteq> NaN then geoLocation lat lng else JUndefined))"

definition cleanTextOf :: "jstring \<Rightarrow> jstring" where
  "cleanTextOf txt =
     (case regexMatch COORDINATE_REGEX_at txt of
        None \<Rightarrow> txt
      | Some (m0, g1, g2) \<Rightarrow> trim (removeFirst m0 txt))"

text \<open>
  Lines 104 to 121: the locations one grounding chunk contributes (the body of the
  \<^verbatim>\<open>forEach\<close> callback), and the loop over the chunks. \<open>mapsUri\<close> is
  \<^verbatim>\<open>chunk.maps?.uri\<close>; a truthy URI that is no string has no \<^verbatim>\<open>match\<close> method.
\<close>

definition mapsUri :: "jsval \<Rightarrow> jserror + jsval" where
  "mapsUri chunk =
     (if isNullish chunk then Inl TypeError
      else if isNullish (propOf chunk (js ''maps'')) then Inr JUndefined
      else Inr (propOf (propOf chunk (js ''maps'')) (js ''uri'')))"

definition uriLocations :: "(rat \<Rightarrow> jsnum) \<Rightarrow> jstring \<Rightarrow> jsval list" where
  "uriLocations toDouble uri =
     (case regexMatch MAPS_REGEX_at uri of
        None \<Rightarrow> []
      | Some (m0, g1, g2) \<Rightarrow>
          (let lat = parseFloat toDouble g1; lng = parseFloat toDouble g2
           in if lat \<noteq> NaN \<and> lng \<noteq> NaN then [geoLocation lat lng] else []))"

definition chunkLocations :: "(rat \<Rightarrow> jsnum) \<Rightarrow> jsval \<Rightarrow> jserror + jsval list" where
  "chunkLocations toDouble chunk =
     (case mapsUri chunk of
        Inl e \<Rightarrow> Inl e
      | Inr uri \<Rightarrow>
          if truthy uri
          then (case uri of JStr u \<Rightarrow> Inr (uriLocations toDouble u) | _ \<Rightarrow> Inl TypeError)
          else Inr [])"

fun forEachChunk :: "(rat \<Rightarrow> jsnum) \<Rightarrow> jsval list \<Rightarrow> jserror + jsval list" where
  "forEachChunk toDouble [] = Inr []"
| "forEachChunk toDouble (chunk # chunks) =
     (case chunkLocations toDouble chunk of
        Inl e \<Rightarrow> Inl e
      | Inr ls \<Rightarrow>
          (case forEachChunk toDouble chunks of
             Inl e \<Rightarrow> Inl e
           | Inr rest \<Rightarrow> Inr (ls @ rest)))"

definition relatedLocationsOf :: "(rat \<Rightarrow> jsnum) \<Rightarrow> jsval \<Rightarrow> jserror + jsval list" where
  "relatedLocationsOf toDouble chunks =
     (if truthy chunks
      then (case chunks of JArr cs \<Rightarrow> forEachChunk toDouble cs | _ \<Rightarrow> Inl TypeError)
      else Inr [])"

text \<open>
  The message returned (lines 123 to 131). \<^verbatim>\<open>crypto.randomUUID()\<close> and
  \<^verbatim>\<open>Date.now()\<close> are the parameters \<open>uuid\<close> and \<open>now\<close>.
\<close>

definition modelMessage ::
  "(rat \<Rightarrow> jsnum) \<Rightarrow> jstring \<Rightarrow> jsnum \<Rightarrow> gen_response \<Rightarrow> jserror + jsval" where
  "modelMessage toDouble uuid now response =
     (case relatedLocationsOf toDouble (groundingChunks response) of
        Inl e \<Rightarrow> Inl e
      | Inr relatedLocations \<Rightarrow>
          Inr (JObj
            [(js ''id'', JStr uuid),
             (js ''role'', JStr (js ''model'')),
             (js ''text'', JStr (cleanTextOf (replyText response))),
             (js ''groundingChunks'', groundingChunks response),
             (js ''suggestedLocation'', suggestedLocationOf toDouble (replyText response)),
             (js ''relatedLocations'',
                if length relatedLocations > 0 then JArr relatedLocations else JUndefined),
             (js ''timestamp'', JNum now)]))"

text \<open>
  The \<^verbatim>\<open>catch\<close> of the function:
  \<^verbatim>\<open>throw new Error(error.message || "Failed to connect to GeoChat AI.")\<close>. An engine
  error keeps standing for an error with the engine's own message.
\<close>

fun rethrow :: "jserror \<Rightarrow> jserror" where
  "rethrow (Error m) = Error (if m = [] then js ''Failed to connect to GeoChat AI.'' else m)"
| "rethrow e = e"

text \<open>
  The whole function. The service is the parameter \<open>generateContent\<close>; it is given the
  \<^verbatim>\<open>contents\<close> of the request and the location from which the request's configuration
  is computed, and answers with a response or fails.
\<close>

definition sendMessageToGemini ::
  "(rat \<Rightarrow> jsnum) \<Rightarrow> (jsval list \<Rightarrow> jsval \<Rightarrow> jserror + gen_response) \<Rightarrow> jstring \<Rightarrow> jsnum \<Rightarrow>
     jsval list \<Rightarrow> jsval \<Rightarrow> jserror + jsval" where
  "sendMessageToGemini toDouble generateContent uuid now chatHistory userLocation =
     (case historyContext chatHistory of
        Inl e \<Rightarrow> Inl e
      | Inr contents \<Rightarrow>
          (case generateContent contents userLocation of
             Inl e \<Rightarrow> Inl (rethrow e)
           | Inr response \<Rightarrow>
               (case modelMessage toDouble uuid now response of
                  Inl e \<Rightarrow> Inl (rethrow e)
                | Inr message \<Rightarrow> Inr message)))"

section \<open>The session store: the initial value of \<^verbatim>\<open>sessions\<close>\<close>

text \<open>
  \<^verbatim>\<open>x?.filter(isValidStoredLoc)\<close>: \<^verbatim>\<open>undefined\<close> for a nullish \<open>x\<close>, the filtered array
  for an array, a \<^verbatim>\<open>TypeError\<close> for anything else (it has no \<^verbatim>\<open>filter\<close> method).
\<close>

fun optFilter :: "(jsval \<Rightarrow> bool) \<Rightarrow> jsval \<Rightarrow> jserror + jsval" where
  "optFilter p JUndefined = Inr JUndefined"
| "optFilter p JNull = Inr JUndefined"
| "optFilter p (JArr xs) = Inr (JArr (filter p xs))"
| "optFilter p v = Inl TypeError"

text \<open>
  The callback that both branches of the initializer apply to a message:
  \<^verbatim>\<open>m => ({ ...m, suggestedLocation: isValidStoredLoc(m.suggestedLocation) ?
  m.suggestedLocation : undefined, relatedLocations: m.relatedLocations?.filter(isValidStoredLoc) })\<close>.
\<close>

definition sanitizeMessage :: "jsval \<Rightarrow> jserror + jsval" where
  "sanitizeMessage m =
     (if isNullish m then Inl TypeError
      else (case optFilter isValidStoredLoc (propOf m (js ''relatedLocations'')) of
              Inl e \<Rightarrow> Inl e
            | Inr related \<Rightarrow>
                Inr (JObj
                  (setProp (js ''relatedLocations'') related
                    (setProp (js ''suggestedLocation'')
                       (if isValidStoredLoc (propOf m (js ''suggestedLocation''))
                        then propOf m (js ''suggestedLocation'') else JUndefined)
                       (spread m))))))"

text \<open>
  The callback applied to a stored session:
  \<^verbatim>\<open>s => ({ ...s, messages: s.messages.map(...) })\<close>.
\<close>

definition sanitizeSession :: "jsval \<Rightarrow> jserror + jsval" where
  "sanitizeSession s =
     (if isNullish s then Inl TypeError
      else (case propOf s (js ''messages'') of
              JArr ms \<Rightarrow>
                (case mapE sanitizeMessage ms of
                   Inl e \<Rightarrow> Inl e
                 | Inr ms' \<Rightarrow> Inr (JObj (setProp (js ''messages'') (JArr ms') (spread s))))
            | _ \<Rightarrow> Inl TypeError))"

text \<open>
  The two halves of the \<^verbatim>\<open>try\<close> block. Each returns \<open>Inr (Some r)\<close> when it executes a
  \<^verbatim>\<open>return r\<close>, \<open>Inr None\<close> when control falls through, \<open>Inl e\<close> when it throws.
  \<^verbatim>\<open>JSON.parse\<close> and \<^verbatim>\<open>localStorage.getItem\<close> are the parameters \<open>parse\<close> and
  \<open>getItem\<close>.
\<close>

definition loadSaved ::
  "(jstring \<Rightarrow> jserror + jsval) \<Rightarrow> (jstring \<Rightarrow> jserror + jstring option) \<Rightarrow>
     jserror + jsval list option" where
  "loadSaved parse getItem =
     (case getItem (js ''geochat_sessions'') of
        Inl e \<Rightarrow> Inl e
      | Inr None \<Rightarrow> Inr None
      | Inr (Some savedSessions) \<Rightarrow>
          if savedSessions = [] then Inr None
          else (case parse savedSessions of
                  Inl e \<Rightarrow> Inl e
                | Inr (JArr parsedSessions) \<Rightarrow>
                    (case mapE sanitizeSession parsedSessions of
                       Inl e \<Rightarrow> Inl e
                     | Inr ss \<Rightarrow> Inr (Some ss))
                | Inr _ \<Rightarrow> Inr None))"

definition migratedSession :: "jstring \<Rightarrow> jsnum \<Rightarrow> jsval list \<Rightarrow> jsval" where
  "migratedSession uuid now sanitizedMsgs =
     JObj [(js ''id'', JStr uuid),
           (js ''title'', JStr (js ''Restored Chat'')),
           (js ''messages'', JArr sanitizedMsgs),
           (js ''updatedAt'', JNum now)]"

definition migrateHistory ::
  "(jstring \<Rightarrow> jserror + jsval) \<Rightarrow> (jstring \<Rightarrow> jserror + jstring option) \<Rightarrow> jstring \<Rightarrow> jsnum \<Rightarrow>
     jserror + jsval list option" where
  "migrateHistory parse getItem uuid now =
     (case getItem (js ''geochat_history'') of
        Inl e \<Rightarrow> Inl e
      | Inr None \<Rightarrow> Inr None
      | Inr (Some oldHistory) \<Rightarrow>
          if oldHistory = [] then Inr None
          else (case parse oldHistory of
                  Inl e \<Rightarrow> Inl e
                | Inr (JArr msgs) \<Rightarrow>
                    if length msgs > 0
                    then (case mapE sanitizeMessage msgs of
                            Inl e \<Rightarrow> Inl e
                          | Inr sanitizedMsgs \<Rightarrow>
                              Inr (Some [migratedSession uuid now sanitizedMsgs]))
                    else Inr None
                | Inr _ \<Rightarrow> Inr None))"

text \<open>The initializer: the \<^verbatim>\<open>try\<close> block, its \<^verbatim>\<open>catch\<close> and the final \<^verbatim>\<open>return []\<close>.\<close>

definition initialSessions ::
  "(jstring \<Rightarrow> jserror + jsval) \<Rightarrow> (jstring \<Rightarrow> jserror + jstring option) \<Rightarrow> jstring \<Rightarrow> jsnum \<Rightarrow>
     jsval list" where
  "initialSessions parse getItem uuid now =
     (case loadSaved parse getItem of
        Inl e \<Rightarrow> []
      | Inr (Some ss) \<Rightarrow> ss
      | Inr None \<Rightarrow>
          (case migrateHistory parse getItem uuid now of
             Inl e \<Rightarrow> []
           | Inr (Some ss) \<Rightarrow> ss
           | Inr None \<Rightarrow> []))"

section \<open>The conversation controller\<close>

text \<open>The state of the \<^verbatim>\<open>App\<close> component that the handlers read and write.\<close>

record app_state =
  userLocation :: jsval
  targetLocation :: jsval
  input :: jstring
  isLoading :: bool
  isMobileMapOpen :: bool
  isSidebarOpen :: bool
  sessions :: "jsval list"
  currentSessionId :: jsval
  messages :: "jsval list"

text \<open>
  \<^verbatim>\<open>loadSession\<close>. The session's \<^verbatim>\<open>messages\<close> is an array in every state the
  application reaches (the initializer, \<^verbatim>\<open>createNewSession\<close> and the synchronising effect
  store arrays only); spreading anything else is reported as a \<^verbatim>\<open>TypeError\<close>.
\<close>

definition hasId :: "jstring \<Rightarrow> jsval \<Rightarrow> jserror + bool" where
  "hasId sessionId s =
     (if isNullish s then Inl TypeError else Inr (propOf s (js ''id'') = JStr sessionId))"

definition hasSuggestedLocation :: "jsval \<Rightarrow> jserror + bool" where
  "hasSuggestedLocation m =
     (if isNullish m then Inl TypeError else Inr (truthy (propOf m (js ''suggestedLocation''))))"

definition restoredTarget :: "jsval option \<Rightarrow> jsval" where
  "restoredTarget lastLocMsg =
     (case lastLocMsg of
        None \<Rightarrow> JNull
      | Some m \<Rightarrow>
          if truthy (propOf m (js ''suggestedLocation''))
             \<and> isValidStoredLoc (propOf m (js ''suggestedLocation''))
          then propOf m (js ''suggestedLocation'') else JNull)"

definition loadSession :: "app_state \<Rightarrow> jstring \<Rightarrow> jserror + app_state" where
  "loadSession st sessionId =
     (case findE (hasId sessionId) (sessions st) of
        Inl e \<Rightarrow> Inl e
      | Inr None \<Rightarrow> Inr st
      | Inr (Some session) \<Rightarrow>
          (case propOf session (js ''messages'') of
             JArr ms \<Rightarrow>
               (case findE hasSuggestedLocation (rev ms) of
                  Inl e \<Rightarrow> Inl e
                | Inr lastLocMsg \<Rightarrow>
                    Inr (st\<lparr>currentSessionId := JStr sessionId,
                            messages := ms,
                            targetLocation := restoredTarget lastLocMsg,
                            isSidebarOpen := False\<rparr>))
           | _ \<Rightarrow> Inl TypeError))"

text \<open>
  The related locations handed to the map (lines 222 to 225): those of the latest message
  of the model, \<^verbatim>\<open>[...messages].reverse().find(m => m.role === 'model')?.relatedLocations\<close>.
\<close>

definition isModelMessage :: "jsval \<Rightarrow> jserror + bool" where
  "isModelMessage m =
     (if isNullish m then Inl TypeError
      else Inr (propOf m (js ''role'') = JStr (js ''model'')))"

definition relatedLocations :: "jsval list \<Rightarrow> jserror + jsval" where
  "relatedLocations msgs =
     (case findE isModelMessage (rev msgs) of
        Inl e \<Rightarrow> Inl e
      | Inr None \<Rightarrow> Inr JUndefined
      | Inr (Some lastModelMsg) \<Rightarrow> Inr (propOf lastModelMsg (js ''relatedLocations'')))"

text \<open>
  \<^verbatim>\<open>handleSendMessage\<close>, in its two parts: what runs before the \<^verbatim>\<open>await\<close> and what
  runs when the call has settled. \<open>handleSendMessage_start\<close> returns the new state and,
  when a request is made, the arguments of \<^verbatim>\<open>sendMessageToGemini\<close>.
\<close>

definition textToSend :: "app_state \<Rightarrow> jsval \<Rightarrow> jstring" where
  "textToSend st textOverride = (case textOverride of JStr t \<Rightarrow> t | _ \<Rightarrow> input st)"

definition userMessage :: "jstring \<Rightarrow> jsnum \<Rightarrow> jstring \<Rightarrow> jsval" where
  "userMessage uuid now txt =
     JObj [(js ''id'', JStr uuid),
           (js ''role'', JStr (js ''user'')),
           (js ''text'', JStr (trim txt)),
           (js ''timestamp'', JNum now)]"

definition handleSendMessage_start ::
  "app_state \<Rightarrow> jsval \<Rightarrow> jstring \<Rightarrow> jsnum \<Rightarrow> app_state \<times> (jsval list \<times> jsval) option" where
  "handleSendMessage_start st textOverride uuid now =
     (if trim (textToSend st textOverride) = [] \<or> isLoading st then (st, None)
      else
        (let userMsg = userMessage uuid now (textToSend st textOverride);
             currentHistory = messages st @ [userMsg];
             contextLocation =
               (if truthy (targetLocation st) then targetLocation st else userLocation st)
         in (st\<lparr>messages := messages st @ [userMsg],
                 input := [],
                 isLoading := True,
                 isMobileMapOpen :=
                   (if truthy textOverride \<and> isMobileMapOpen st then False
                    else isMobileMapOpen st)\<rparr>,
             Some (currentHistory, contextLocation))))"

definition apologyMessage :: "jstring \<Rightarrow> jsnum \<Rightarrow> jsval" where
  "apologyMessage uuid now =
     JObj [(js ''id'', JStr uuid),
           (js ''role'', JStr (js ''model'')),
           (js ''text'',
              JStr (js ''I'm having trouble connecting to my map data right now. Please try again.'')),
           (js ''timestamp'', JNum now)]"

definition handleSendMessage_settled ::
  "app_state \<Rightarrow> jserror + jsval \<Rightarrow> jstring \<Rightarrow> jsnum \<Rightarrow> app_state" where
  "handleSendMessage_settled st outcome uuid now =
     (case outcome of
        Inr response \<Rightarrow>
          st\<lparr>messages := messages st @ [response],
              targetLocation :=
                (if truthy (propOf response (js ''suggestedLocation''))
                    \<and> isValidStoredLoc (propOf response (js ''suggestedLocation''))
                 then propOf response (js ''suggestedLocation'') else targetLocation st),
              isLoading := False\<rparr>
      | Inl error \<Rightarrow>
          st\<lparr>messages := messages st @ [apologyMessage uuid now],
              isLoading := False\<rparr>)"

text \<open>
  The handler from call to completion, when nothing else changes the state while the
  request is pending. \<open>ids\<close> and \<open>stamps\<close> are the values of the two calls of
  \<^verbatim>\<open>crypto.randomUUID()\<close> and \<^verbatim>\<open>Date.now()\<close> on the path taken (the user message first).
\<close>

definition handleSendMessage ::
  "(rat \<Rightarrow> jsnum) \<Rightarrow> (jsval list \<Rightarrow> jsval \<Rightarrow> jserror + gen_response) \<Rightarrow>
     jstring \<times> jstring \<Rightarrow> jsnum \<times> jsnum \<Rightarrow> app_state \<Rightarrow> jsval \<Rightarrow> app_state" where
  "handleSendMessage toDouble generateContent ids stamps st textOverride =
     (case handleSendMessage_start st textOverride (fst ids) (fst stamps) of
        (st', None) \<Rightarrow> st'
      | (st', Some (currentHistory, contextLocation)) \<Rightarrow>
          handleSendMessage_settled st'
            (sendMessageToGemini toDouble generateContent (snd ids) (snd stamps)
               currentHistory contextLocation)
            (snd ids) (snd stamps))"

section \<open>The viewport synchronizer: \<^verbatim>\<open>MapUpdater\<close>\<close>

text \<open>
  What the effect of \<^verbatim>\<open>MapUpdater\<close> asks of the map: \<^verbatim>\<open>map.fitBounds(bounds, { padding,
  maxZoom, animate, duration })\<close>, \<^verbatim>\<open>map.flyTo(point, zoom, { duration })\<close>, or nothing.
\<close>

datatype map_command =
    FitBounds "(jsval \<times> jsval) list" "nat \<times> nat" nat bool rat
  | FlyTo "jsval \<times> jsval" nat rat
  | NoOp

definition latLng :: "jsval \<Rightarrow> jsval \<times> jsval" where
  "latLng l = (propOf l (js ''lat''), propOf l (js ''lng''))"

text \<open>
  The effect. \<^verbatim>\<open>L.latLngBounds(points).isValid()\<close> is the map library's and is the
  parameter \<open>boundsValid\<close>, a predicate of the points the bounds are built from.
\<close>

definition MapUpdater ::
  "((jsval \<times> jsval) list \<Rightarrow> bool) \<Rightarrow> jsval \<Rightarrow> jsval \<Rightarrow> jserror + map_command" where
  "MapUpdater boundsValid target related =
     (case optFilter isValidLocation related of
        Inl e \<Rightarrow> Inl e
      | Inr filtered \<Rightarrow>
          (let validRelated = (case filtered of JArr ls \<Rightarrow> ls | _ \<Rightarrow> []) in
           if length validRelated > 0
           then
             (let points = map latLng validRelated
                             @ (if isValidLocation target then [latLng target] else [])
              in if length points > 0 \<and> boundsValid points
                 then Inr (FitBounds points (50, 50) 15 True (3 / 2))
                 else Inr NoOp)
           else if isValidLocation target then Inr (FlyTo (latLng target) 15 2)
           else Inr NoOp))"

section \<open>Auxiliary notions used in the statements\<close>

text \<open>Whether an object has an own property \<open>k\<close>.\<close>

fun hasKey :: "jstring \<Rightarrow> (jstring \<times> jsval) list \<Rightarrow> bool" where
  "hasKey k [] = False"
| "hasKey k ((k', v) # kvs) = (k' = k \<or> hasKey k kvs)"

text \<open>
  A message holds validated locations only: its \<^verbatim>\<open>suggestedLocation\<close> is
  \<^verbatim>\<open>undefined\<close> or passes \<open>isValidStoredLoc\<close>, and its \<^verbatim>\<open>relatedLocations\<close> is
  \<^verbatim>\<open>undefined\<close> or an array of locations that pass it.
\<close>

definition storedLocationsValid :: "jsval \<Rightarrow> bool" where
  "storedLocationsValid m =
     ((propOf m (js ''suggestedLocation'') = JUndefined
         \<or> isValidStoredLoc (propOf m (js ''suggestedLocation'')))
      \<and> (propOf m (js ''relatedLocations'') = JUndefined
         \<or> (\<exists>ls. propOf m (js ''relatedLocations'') = JArr ls \<and> list_all isValidStoredLoc ls)))"

text \<open>
  A session holds validated locations only: its \<^verbatim>\<open>messages\<close> is an array of messages
  that do.
\<close>

definition sessionLocationsValid :: "jsval \<Rightarrow> bool" where
  "sessionLocationsValid s =
     (\<exists>ms. propOf s (js ''messages'') = JArr ms \<and> list_all storedLocationsValid ms)"

text \<open>
  The texts of the capture group \<^verbatim>\<open>-?\d+\.?\d*\<close>, written from the pattern: an optional
  minus sign, at least one digit, an optional point, digits.
\<close>

definition isNumberText :: "jstring \<Rightarrow> bool" where
  "isNumberText g =
     (\<exists>sg ds dot fs. g = sg @ ds @ dot @ fs \<and> (sg = [] \<or> sg = [45]) \<and> ds \<noteq> []
        \<and> list_all isDigit ds \<and> (dot = [] \<or> dot = [46]) \<and> list_all isDigit fs)"

text \<open>
  The texts of the hidden tag \<^verbatim>\<open>{{LAT:<number>, LNG:<number>}}\<close>, written from
  \<^verbatim>\<open>COORDINATE_REGEX\<close>: \<open>m\<close> is a tag with the numbers \<open>g1\<close> and \<open>g2\<close>, any white
  space after the comma.
\<close>

definition isCoordinateTag :: "jstring \<Rightarrow> jstring \<Rightarrow> jstring \<Rightarrow> bool" where
  "isCoordinateTag m g1 g2 =
     (isNumberText g1 \<and> isNumberText g2
      \<and> (\<exists>ws. list_all isSpace ws
            \<and> m = js ''{{LAT:'' @ g1 @ js '','' @ ws @ js ''LNG:'' @ g2 @ js ''}}''))"

text \<open>The text \<open>s\<close> starts with \<^verbatim>\<open>!3d<number>!4d<number>\<close>.\<close>

definition startsMapsPair :: "jstring \<Rightarrow> bool" where
  "startsMapsPair s =
     (\<exists>g1 g2 rest. isNumberText g1 \<and> isNumberText g2
        \<and> s = js ''!3d'' @ g1 @ js ''!4d'' @ g2 @ rest)"



section \<open>Example inputs\<close>

text \<open>
  A number conversion that overflows as IEEE 754 doubles do: a magnitude from \<open>2 ^ 1024\<close>
  on has no finite double. Below that bound it returns the value itself.
\<close>

definition ieeeOverflow :: "rat \<Rightarrow> jsnum" where
  "ieeeOverflow q =
     (if 2 ^ 1024 \<le> q then PosInfinity
      else if q \<le> - (2 ^ 1024) then NegInfinity
      else Finite q)"

text \<open>A grounding chunk of a place, with its URI, and one of a web page.\<close>

definition placeCitation :: "jstring \<Rightarrow> jsval" where
  "placeCitation uri = JObj [(js ''maps'', JObj [(js ''uri'', JStr uri)])]"

definition webCitation :: "jstring \<Rightarrow> jsval" where
  "webCitation uri = JObj [(js ''web'', JObj [(js ''uri'', JStr uri)])]"

text \<open>
  A validity test of bounds that holds as soon as the bounds were built from one point,
  as that of the Leaflet library does.
\<close>

definition nonEmptyBounds :: "(jsval \<times> jsval) list \<Rightarrow> bool" where
  "nonEmptyBounds points = (points \<noteq> [])"

text \<open>A state of the application with no session, no message and no pending request.\<close>

definition idleState :: app_state where
  "idleState =
     \<lparr>userLocation = JNull, targetLocation = JNull, input = [], isLoading = False,
      isMobileMapOpen = False, isSidebarOpen = False, sessions = [],
      currentSessionId = JNull, messages = []\<rparr>"



section \<open>Basic facts\<close>

lemma js_inj: "js a = js b \<longleftrightarrow> a = b"
  unfolding js_def by (metis inj_map_eq_map inj_on_def of_char_eq_iff)

lemma lookup_setProp_same: "lookup (setProp k v kvs) k = v"
  by (induction kvs) auto

lemma lookup_setProp_other: "k' \<noteq> k \<Longrightarrow> lookup (setProp k v kvs) k' = lookup kvs k'"
  by (induction kvs) auto

lemma setProp_idem: "lookup kvs k = v \<Longrightarrow> hasKey k kvs \<Longrightarrow> setProp k v kvs = kvs"
  by (induction kvs) auto

lemma setProp_key_present: "hasKey k (setProp k v kvs)"
  by (induction kvs) auto

lemma setProp_keys_mono: "hasKey k' kvs \<Longrightarrow> hasKey k' (setProp k v kvs)"
  by (induction kvs) auto

lemma mapE_Inr_iff: "mapE f xs = Inr ys \<longleftrightarrow> list_all2 (\<lambda>x y. f x = Inr y) xs ys"
proof (induction xs arbitrary: ys)
  case Nil
  show ?case by auto
next
  case (Cons x xs)
  show ?case
  proof (cases "f x")
    case (Inl e)
    then show ?thesis by (cases ys) auto
  next
    case fx: (Inr y)
    show ?thesis
    proof (cases "mapE f xs")
      case (Inl e)
      with fx Cons.IH show ?thesis by (cases ys) auto
    next
      case (Inr zs)
      with fx Cons.IH[of zs] Cons.IH show ?thesis by (cases ys) auto
    qed
  qed
qed

lemma mapE_fixed:
  assumes "\<And>y. y \<in> set ys \<Longrightarrow> f y = Inr y"
  shows "mapE f ys = Inr ys"
  using assms by (induction ys) auto

lemma mapE_idem:
  assumes "\<And>x y. f x = Inr y \<Longrightarrow> f y = Inr y" and "mapE f xs = Inr ys"
  shows "mapE f ys = Inr ys"
proof (rule mapE_fixed)
  fix y assume "y \<in> set ys"
  with assms(2) obtain x where "f x = Inr y"
    unfolding mapE_Inr_iff by (auto simp: list_all2_conv_all_nth in_set_conv_nth)
  then show "f y = Inr y" by (rule assms(1))
qed

section \<open>The validators\<close>

lemma isFinite_iff: "isFinite n \<longleftrightarrow> (\<exists>x. n = Finite x)"
  by (cases n) simp_all

lemma finiteNumber_iff: "finiteNumber v \<longleftrightarrow> (\<exists>x. v = JNum (Finite x))"
  by (cases v) (auto simp: finiteNumber_def isFinite_iff)

lemma isValidStoredLoc_iff:
  "isValidStoredLoc v \<longleftrightarrow>
     (\<exists>kvs x y. v = JObj kvs \<and> lookup kvs (js ''lat'') = JNum (Finite x)
                \<and> lookup kvs (js ''lng'') = JNum (Finite y))"
  by (cases v) (auto simp: isValidStoredLoc_def finiteNumber_iff)

lemma isValidLocation_eq: "isValidLocation v = isValidStoredLoc v"
  by (simp add: isValidLocation_def isValidStoredLoc_def)

lemma not_valid_undefined [simp]: "\<not> isValidStoredLoc JUndefined"
  by (simp add: isValidStoredLoc_def)

section \<open>Sanitization of stored messages and sessions\<close>

lemma optFilter_Inr:
  "optFilter p v = Inr r \<Longrightarrow>
     (isNullish v \<and> r = JUndefined) \<or> (\<exists>xs. v = JArr xs \<and> r = JArr (filter p xs))"
  by (cases v) auto

lemma optFilter_idem: "optFilter p v = Inr r \<Longrightarrow> optFilter p r = Inr r"
  by (cases v) auto

lemma sanitizeMessage_Inr:
  assumes "sanitizeMessage m = Inr m'"
  shows "\<exists>related. optFilter isValidStoredLoc (propOf m (js ''relatedLocations'')) = Inr related
           \<and> m' = JObj (setProp (js ''relatedLocations'') related
                   (setProp (js ''suggestedLocation'')
                      (if isValidStoredLoc (propOf m (js ''suggestedLocation''))
                       then propOf m (js ''suggestedLocation'') else JUndefined)
                      (spread m)))
           \<and> \<not> isNullish m"
  using assms by (auto simp: sanitizeMessage_def split: if_splits sum.splits)

lemma sanitizeMessage_suggested:
  assumes "sanitizeMessage m = Inr m'"
  shows "propOf m' (js ''suggestedLocation'') =
           (if isValidStoredLoc (propOf m (js ''suggestedLocation''))
            then propOf m (js ''suggestedLocation'') else JUndefined)"
  using sanitizeMessage_Inr[OF assms]
  by (auto simp: lookup_setProp_same lookup_setProp_other js_inj)

lemma sanitizeMessage_related:
  assumes "sanitizeMessage m = Inr m'"
  shows "optFilter isValidStoredLoc (propOf m (js ''relatedLocations''))
           = Inr (propOf m' (js ''relatedLocations''))"
  using sanitizeMessage_Inr[OF assms]
  by (auto simp: lookup_setProp_same)


lemma sanitizeMessage_valid:
  assumes "sanitizeMessage m = Inr m'"
  shows "storedLocationsValid m'"
  using sanitizeMessage_suggested[OF assms] optFilter_Inr[OF sanitizeMessage_related[OF assms]]
  by (auto simp: storedLocationsValid_def list_all_iff)

lemma sanitizeMessage_idem:
  assumes "sanitizeMessage m = Inr m'"
  shows "sanitizeMessage m' = Inr m'"
proof -
  define sv where "sv = (if isValidStoredLoc (propOf m (js ''suggestedLocation''))
                         then propOf m (js ''suggestedLocation'') else JUndefined)"
  from sanitizeMessage_Inr[OF assms] obtain related where
    r: "optFilter isValidStoredLoc (propOf m (js ''relatedLocations'')) = Inr related"
    and m': "m' = JObj (setProp (js ''relatedLocations'') related
                   (setProp (js ''suggestedLocation'') sv (spread m)))"
    unfolding sv_def by blast
  define kvs where "kvs = setProp (js ''relatedLocations'') related
                   (setProp (js ''suggestedLocation'') sv (spread m))"
  have m'_kvs: "m' = JObj kvs" by (simp add: m' kvs_def)
  have l1: "lookup kvs (js ''relatedLocations'') = related"
    by (simp add: kvs_def lookup_setProp_same)
  have l2: "lookup kvs (js ''suggestedLocation'') = sv"
    by (simp add: kvs_def lookup_setProp_same lookup_setProp_other js_inj)
  have k1: "hasKey (js ''relatedLocations'') kvs"
    by (simp add: kvs_def setProp_key_present)
  have k2: "hasKey (js ''suggestedLocation'') kvs"
    by (simp add: kvs_def setProp_key_present setProp_keys_mono)
  have sv_keep: "(if isValidStoredLoc sv then sv else JUndefined) = sv"
    by (simp add: sv_def)
  have s1: "setProp (js ''suggestedLocation'') sv kvs = kvs"
    by (rule setProp_idem[OF l2 k2])
  have s2: "setProp (js ''relatedLocations'') related kvs = kvs"
    by (rule setProp_idem[OF l1 k1])
  show ?thesis
  proof (cases "isValidStoredLoc sv")
    case True
    then show ?thesis
      by (simp add: sanitizeMessage_def m'_kvs l1 l2 optFilter_idem[OF r] s1 s2)
  next
    case False
    with sv_keep have "sv = JUndefined" by simp
    with False s1 s2 show ?thesis
      by (simp add: sanitizeMessage_def m'_kvs l1 l2 optFilter_idem[OF r])
  qed
qed

lemma sanitizeSession_Inr:
  assumes "sanitizeSession s = Inr s'"
  shows "\<exists>ms ms'. propOf s (js ''messages'') = JArr ms \<and> mapE sanitizeMessage ms = Inr ms'
            \<and> s' = JObj (setProp (js ''messages'') (JArr ms') (spread s)) \<and> \<not> isNullish s"
  using assms by (auto simp: sanitizeSession_def split: if_splits sum.splits jsval.splits)

lemma sanitizeSession_idem:
  assumes "sanitizeSession s = Inr s'"
  shows "sanitizeSession s' = Inr s'"
proof -
  from sanitizeSession_Inr[OF assms] obtain ms ms' where
    ms: "mapE sanitizeMessage ms = Inr ms'"
    and s': "s' = JObj (setProp (js ''messages'') (JArr ms') (spread s))"
    by blast
  define kvs where "kvs = setProp (js ''messages'') (JArr ms') (spread s)"
  have l: "lookup kvs (js ''messages'') = JArr ms'"
    by (simp add: kvs_def lookup_setProp_same)
  have k: "hasKey (js ''messages'') kvs"
    by (simp add: kvs_def setProp_key_present)
  have again: "mapE sanitizeMessage ms' = Inr ms'"
    using sanitizeMessage_idem ms by (rule mapE_idem)
  show ?thesis
    by (simp add: sanitizeSession_def s' kvs_def[symmetric] l again setProp_idem[OF l k])
qed

section \<open>Only validated locations are stored or targeted\<close>


lemma mapE_list_all:
  assumes "\<And>x y. f x = Inr y \<Longrightarrow> P y" and "mapE f xs = Inr ys"
  shows "list_all P ys"
  using assms(2) unfolding mapE_Inr_iff
  by (induction xs ys rule: list_all2_induct) (auto intro: assms(1))

lemma sanitizeSession_valid:
  assumes "sanitizeSession s = Inr s'"
  shows "sessionLocationsValid s'"
proof -
  from sanitizeSession_Inr[OF assms] obtain ms ms' where
    ms: "mapE sanitizeMessage ms = Inr ms'"
    and s': "s' = JObj (setProp (js ''messages'') (JArr ms') (spread s))"
    by blast
  have "list_all storedLocationsValid ms'"
    using sanitizeMessage_valid ms by (rule mapE_list_all)
  then show ?thesis
    by (simp add: sessionLocationsValid_def s' lookup_setProp_same)
qed

lemma loadSaved_valid:
  assumes "loadSaved parse getItem = Inr (Some ss)"
  shows "list_all sessionLocationsValid ss"
proof -
  from assms obtain ps where "mapE sanitizeSession ps = Inr ss"
    by (auto simp: loadSaved_def split: sum.splits option.splits if_splits jsval.splits)
  with sanitizeSession_valid show ?thesis by (rule mapE_list_all)
qed

lemma migrateHistory_valid:
  assumes "migrateHistory parse getItem uuid now = Inr (Some ss)"
  shows "list_all sessionLocationsValid ss"
proof -
  from assms obtain msgs ms' where ms: "mapE sanitizeMessage msgs = Inr ms'"
    and ss: "ss = [migratedSession uuid now ms']"
    by (auto simp: migrateHistory_def split: sum.splits option.splits if_splits jsval.splits)
  have "list_all storedLocationsValid ms'"
    using sanitizeMessage_valid ms by (rule mapE_list_all)
  then show ?thesis
    by (simp add: ss sessionLocationsValid_def migratedSession_def js_inj)
qed

lemma initialSessions_valid:
  "list_all sessionLocationsValid (initialSessions parse getItem uuid now)"
  by (auto simp: initialSessions_def loadSaved_valid migrateHistory_valid
           split: sum.splits option.splits)

lemma settled_target:
  "targetLocation (handleSendMessage_settled st outcome uuid now) = targetLocation st
   \<or> isValidStoredLoc (targetLocation (handleSendMessage_settled st outcome uuid now))"
  by (cases outcome) (auto simp: handleSendMessage_settled_def)

lemma restoredTarget_cases:
  "restoredTarget r = JNull \<or> isValidStoredLoc (restoredTarget r)"
  by (auto simp: restoredTarget_def split: option.splits)

lemma loadSession_target:
  assumes "loadSession st sessionId = Inr st'"
  shows "targetLocation st' = targetLocation st \<or> targetLocation st' = JNull
         \<or> isValidStoredLoc (targetLocation st')"
proof -
  from assms have "st' = st \<or> (\<exists>r. targetLocation st' = restoredTarget r)"
    by (auto simp: loadSession_def split: sum.splits option.splits jsval.splits)
  with restoredTarget_cases show ?thesis by metis
qed

section \<open>Lists with callbacks that may throw\<close>

lemma findE_total:
  assumes "\<And>x. x \<in> set xs \<Longrightarrow> p x = Inr (q x)"
  shows "findE p xs = Inr (find q xs)"
  using assms by (induction xs) auto

lemma find_cong_on:
  "(\<And>x. x \<in> set xs \<Longrightarrow> p x = q x) \<Longrightarrow> find p xs = find q xs"
  by (induction xs) auto

lemma mapE_succeeds:
  assumes "\<And>x. x \<in> set xs \<Longrightarrow> \<exists>y. f x = Inr y"
  shows "\<exists>ys. mapE f xs = Inr ys"
  using assms
proof (induction xs)
  case Nil
  show ?case by simp
next
  case (Cons x xs)
  from Cons.prems obtain y where "f x = Inr y" by auto
  moreover from Cons obtain ys where "mapE f xs = Inr ys" by auto
  ultimately show ?case by simp
qed

lemma all_le_Suc: "(\<forall>i \<le> Suc n. P i) \<longleftrightarrow> P 0 \<and> (\<forall>i \<le> n. P (Suc i))"
proof
  assume "\<forall>i \<le> Suc n. P i"
  then show "P 0 \<and> (\<forall>i \<le> n. P (Suc i))" by simp
next
  assume a: "P 0 \<and> (\<forall>i \<le> n. P (Suc i))"
  show "\<forall>i \<le> Suc n. P i"
  proof (intro allI impI)
    fix i assume "i \<le> Suc n"
    with a show "P i" by (cases i) auto
  qed
qed

lemma all_less_Suc: "(\<forall>i < Suc n. P i) \<longleftrightarrow> P 0 \<and> (\<forall>i < n. P (Suc i))"
proof
  assume "\<forall>i < Suc n. P i"
  then show "P 0 \<and> (\<forall>i < n. P (Suc i))" by simp
next
  assume a: "P 0 \<and> (\<forall>i < n. P (Suc i))"
  show "\<forall>i < Suc n. P i"
  proof (intro allI impI)
    fix i assume "i < Suc n"
    with a show "P i" by (cases i) auto
  qed
qed

section \<open>Loading and migrating\<close>




section \<open>The controller\<close>

lemma apology_fields:
  "propOf (apologyMessage uuid now) (js ''suggestedLocation'') = JUndefined"
  "propOf (apologyMessage uuid now) (js ''relatedLocations'') = JUndefined"
  "propOf (apologyMessage uuid now) (js ''role'') = JStr (js ''model'')"
  "propOf (apologyMessage uuid now) (js ''text'') =
     JStr (js ''I'm having trouble connecting to my map data right now. Please try again.'')"
  by (simp_all add: apologyMessage_def js_inj)

lemma relatedLocations_after_apology:
  "relatedLocations (msgs @ [apologyMessage uuid now]) = Inr JUndefined"
  by (simp add: relatedLocations_def isModelMessage_def apology_fields)
    (simp add: apologyMessage_def)

lemma hasSuggestedLocation_total:
  "\<not> isNullish m \<Longrightarrow> hasSuggestedLocation m = Inr (truthy (propOf m (js ''suggestedLocation'')))"
  by (simp add: hasSuggestedLocation_def)

lemma valid_truthy: "isValidStoredLoc v \<Longrightarrow> truthy v"
  by (cases v) (auto simp: isValidStoredLoc_def)

section \<open>The number pattern\<close>

lemma take1_eq: "take 1 s = [c] \<Longrightarrow> s = c # drop 1 s"
  by (cases s) auto

lemma scanNumber_sound:
  assumes "scanNumber s = Some (g, r)"
  shows "s = g @ r \<and> isNumberText g"
proof -
  define sg where "sg = (if take 1 s = [45] then [45::nat] else [])"
  define r1 where "r1 = drop (length sg) s"
  define ds where "ds = takeWhile isDigit r1"
  define r2 where "r2 = dropWhile isDigit r1"
  define dot where "dot = (if take 1 r2 = [46] then [46::nat] else [])"
  define r3 where "r3 = drop (length dot) r2"
  define fs where "fs = takeWhile isDigit r3"
  from assms have ne: "ds \<noteq> []" and g: "g = sg @ ds @ dot @ fs" and r: "r = dropWhile isDigit r3"
    unfolding scanNumber_def Let_def sg_def r1_def ds_def r2_def dot_def r3_def fs_def
    by (auto split: if_splits)
  have s1: "s = sg @ r1"
    unfolding r1_def sg_def using take1_eq[of s 45] by auto
  have s2: "r1 = ds @ r2" by (simp add: ds_def r2_def)
  have s3: "r2 = dot @ r3"
    unfolding r3_def dot_def using take1_eq[of r2 46] by auto
  have s4: "r3 = fs @ r" by (simp add: fs_def r)
  have d1: "list_all isDigit ds" unfolding ds_def list_all_iff by (auto dest: set_takeWhileD)
  have d2: "list_all isDigit fs" unfolding fs_def list_all_iff by (auto dest: set_takeWhileD)
  have "isNumberText g"
    unfolding isNumberText_def
    apply (rule exI[of _ sg], rule exI[of _ ds], rule exI[of _ dot], rule exI[of _ fs])
    using g ne d1 d2 by (auto simp: sg_def dot_def)
  moreover have "s = g @ r" using s1 s2 s3 s4 g by simp
  ultimately show ?thesis by simp
qed

lemma takeWhile_digits_append:
  assumes "list_all isDigit ds" and "r = [] \<or> \<not> isDigit (hd r)"
  shows "takeWhile isDigit (ds @ r) = ds" and "dropWhile isDigit (ds @ r) = r"
proof -
  have a: "takeWhile isDigit r = []" "dropWhile isDigit r = r"
    using assms(2) by (cases r; simp)+
  from assms(1) show "takeWhile isDigit (ds @ r) = ds"
    by (simp add: takeWhile_append2 list_all_iff a)
  from assms(1) show "dropWhile isDigit (ds @ r) = r"
    by (simp add: dropWhile_append2 list_all_iff a)
qed

lemma not_digit_45 [simp]: "\<not> isDigit 45" and not_digit_46 [simp]: "\<not> isDigit 46"
  by (simp_all add: isDigit_def)

lemma scanNumber_complete:
  assumes "isNumberText g" and "r = [] \<or> (\<not> isDigit (hd r) \<and> hd r \<noteq> 46)"
  shows "scanNumber (g @ r) = Some (g, r)"
proof -
  from assms(1) obtain sg ds dot fs where g: "g = sg @ ds @ dot @ fs"
    and sg: "sg = [] \<or> sg = [45]" and ne: "ds \<noteq> []" and d1: "list_all isDigit ds"
    and dot: "dot = [] \<or> dot = [46]" and d2: "list_all isDigit fs"
    unfolding isNumberText_def by blast
  obtain d ds' where ds: "ds = d # ds'" using ne by (cases ds) auto
  with d1 have dd: "isDigit d" by simp
  then have d45: "d \<noteq> 45" by auto
  have rdig: "r = [] \<or> \<not> isDigit (hd r)" using assms(2) by blast
  \<comment> \<open>the sign\<close>
  have sign: "(if take 1 (g @ r) = [45] then [45::nat] else []) = sg"
    using sg by (auto simp: g ds d45)
  have r1: "drop (length sg) (g @ r) = ds @ dot @ fs @ r"
    by (simp add: g)
  show ?thesis
  proof (cases "dot = []")
    case True
    \<comment> \<open>no point: the digits of both parts are one run\<close>
    have all: "list_all isDigit (ds @ fs)" using d1 d2 by simp
    have tw: "takeWhile isDigit (ds @ dot @ fs @ r) = ds @ fs"
      and dw: "dropWhile isDigit (ds @ dot @ fs @ r) = r"
      using takeWhile_digits_append[OF all rdig] True by simp_all
    have nodot: "take 1 r \<noteq> [46]"
      using assms(2) by (cases r) auto
    have tw2: "takeWhile isDigit r = []" and dw2: "dropWhile isDigit r = r"
      using rdig by (cases r; simp)+
    show ?thesis
      unfolding scanNumber_def Let_def sign r1 tw dw
      using nodot ne by (simp add: tw2 dw2 g True)
  next
    case False
    with dot have dot46: "dot = [46]" by simp
    have tw: "takeWhile isDigit (ds @ dot @ fs @ r) = ds"
      and dw: "dropWhile isDigit (ds @ dot @ fs @ r) = 46 # fs @ r"
      using d1 by (simp_all add: dot46 takeWhile_append2 dropWhile_append2 list_all_iff)
    have tw2: "takeWhile isDigit (fs @ r) = fs" and dw2: "dropWhile isDigit (fs @ r) = r"
      using takeWhile_digits_append[OF d2 rdig] by simp_all
    show ?thesis
      unfolding scanNumber_def Let_def sign r1 tw dw
      using ne by (simp add: tw2 dw2 g dot46)
  qed
qed

lemma isNumberText_iff_scan: "isNumberText g \<longleftrightarrow> scanNumber g = Some (g, [])"
  using scanNumber_sound[of g g "[]"] scanNumber_complete[of g "[]"] by auto

lemma scanNumber_defined:
  assumes "isNumberText g"
  shows "scanNumber (g @ rest) \<noteq> None"
proof -
  from assms obtain sg ds dot fs where g: "g = sg @ ds @ dot @ fs"
    and sg: "sg = [] \<or> sg = [45]" and ne: "ds \<noteq> []" and d1: "list_all isDigit ds"
    unfolding isNumberText_def by blast
  obtain d ds' where ds: "ds = d # ds'" using ne by (cases ds) auto
  with d1 have dd: "isDigit d" by simp
  then have d45: "d \<noteq> 45" by auto
  from sg show ?thesis
  proof
    assume "sg = []"
    then show ?thesis using dd d45 by (simp add: scanNumber_def g ds Let_def)
  next
    assume "sg = [45]"
    then show ?thesis using dd by (simp add: scanNumber_def g ds Let_def)
  qed
qed

lemma parseFloat_number:
  assumes "isNumberText g"
  shows "\<exists>q. parseFloat toDouble g = toDouble q"
proof -
  from assms obtain sg ds dot fs where g: "g = sg @ ds @ dot @ fs"
    and sg: "sg = [] \<or> sg = [45]" and ne: "ds \<noteq> []" and d1: "list_all isDigit ds"
    unfolding isNumberText_def by blast
  obtain d ds' where ds: "ds = d # ds'" using ne by (cases ds) auto
  with d1 have dd: "isDigit d" by simp
  then have d45: "d \<noteq> 45" by auto
  from sg show ?thesis
  proof
    assume "sg = []"
    then show ?thesis using dd d45 by (auto simp: parseFloat_def g ds Let_def)
  next
    assume "sg = [45]"
    then show ?thesis using dd by (auto simp: parseFloat_def g ds Let_def)
  qed
qed

section \<open>The coordinate tag\<close>

lemma lit_Some_iff: "lit p s = Some r \<longleftrightarrow> s = p @ r"
  unfolding lit_def by (metis append_eq_conv_conj option.inject option.simps(3))

lemma lit_append [simp]: "lit p (p @ r) = Some r"
  by (simp add: lit_Some_iff)

lemma js_literals:
  "js ''{{LAT:'' = [123, 123, 76, 65, 84, 58]"
  "js '','' = [44]"
  "js ''LNG:'' = [76, 78, 71, 58]"
  "js ''}}'' = [125, 125]"
  "js ''!3d'' = [33, 51, 100]"
  "js ''!4d'' = [33, 52, 100]"
  by (simp_all add: js_def)

lemma not_space_76 [simp]: "\<not> isSpace 76"
  by (simp add: isSpace_def)

lemma COORDINATE_REGEX_at_sound:
  assumes "COORDINATE_REGEX_at s = Some (m, g1, g2)"
  shows "isCoordinateTag m g1 g2 \<and> (\<exists>rest. s = m @ rest)"
proof -
  from assms obtain r1 r2 r3 r4 r5 r6 where
    l1: "lit (js ''{{LAT:'') s = Some r1" and n1: "scanNumber r1 = Some (g1, r2)"
    and l2: "lit (js '','') r2 = Some r3"
    and l3: "lit (js ''LNG:'') (dropWhile isSpace r3) = Some r4"
    and n2: "scanNumber r4 = Some (g2, r5)" and l4: "lit (js ''}}'') r5 = Some r6"
    and m: "m = take (length s - length r6) s"
    by (auto simp: COORDINATE_REGEX_at_def split: Option.bind_splits)
  define ws where "ws = takeWhile isSpace r3"
  have r3: "r3 = ws @ dropWhile isSpace r3" by (simp add: ws_def)
  have ws: "list_all isSpace ws" unfolding ws_def list_all_iff by (auto dest: set_takeWhileD)
  have s: "s = (js ''{{LAT:'' @ g1 @ js '','' @ ws @ js ''LNG:'' @ g2 @ js ''}}'') @ r6"
    using l1 l2 l3 l4 scanNumber_sound[OF n1] scanNumber_sound[OF n2] r3
    by (simp add: lit_Some_iff)
  have m': "m = js ''{{LAT:'' @ g1 @ js '','' @ ws @ js ''LNG:'' @ g2 @ js ''}}''"
    unfolding m by (subst (1 2) s) simp
  have "isCoordinateTag m g1 g2"
    unfolding isCoordinateTag_def
    using scanNumber_sound[OF n1] scanNumber_sound[OF n2] ws m' by blast
  with s m' show ?thesis by blast
qed

lemma dropWhile_spaces:
  assumes "list_all isSpace ws" and "\<not> isSpace c"
  shows "dropWhile isSpace (ws @ c # r) = c # r"
  using assms by (simp add: dropWhile_append2 list_all_iff)

lemma COORDINATE_REGEX_at_complete:
  assumes "isCoordinateTag m g1 g2"
  shows "COORDINATE_REGEX_at (m @ rest) = Some (m, g1, g2)"
proof -
  from assms obtain ws where n1: "isNumberText g1" and n2: "isNumberText g2"
    and ws: "list_all isSpace ws"
    and m: "m = js ''{{LAT:'' @ g1 @ js '','' @ ws @ js ''LNG:'' @ g2 @ js ''}}''"
    unfolding isCoordinateTag_def by blast
  have a: "lit (js ''{{LAT:'') (m @ rest)
           = Some (g1 @ (js '','' @ ws @ js ''LNG:'' @ g2 @ js ''}}'' @ rest))"
    by (simp add: m lit_Some_iff)
  have b: "scanNumber (g1 @ (js '','' @ ws @ js ''LNG:'' @ g2 @ js ''}}'' @ rest))
           = Some (g1, js '','' @ ws @ js ''LNG:'' @ g2 @ js ''}}'' @ rest)"
    by (rule scanNumber_complete[OF n1]) (simp add: js_literals isDigit_def)
  have c: "lit (js '','') (js '','' @ ws @ js ''LNG:'' @ g2 @ js ''}}'' @ rest)
           = Some (ws @ js ''LNG:'' @ g2 @ js ''}}'' @ rest)"
    by simp
  have d: "dropWhile isSpace (ws @ js ''LNG:'' @ g2 @ js ''}}'' @ rest)
           = js ''LNG:'' @ g2 @ js ''}}'' @ rest"
    using dropWhile_spaces[OF ws, of 76] by (simp add: js_literals)
  have e: "scanNumber (g2 @ (js ''}}'' @ rest)) = Some (g2, js ''}}'' @ rest)"
    by (rule scanNumber_complete[OF n2]) (simp add: js_literals isDigit_def)
  have f: "take (length (m @ rest) - length rest) (m @ rest) = m" by simp
  show ?thesis
    unfolding COORDINATE_REGEX_at_def a
    by (simp add: b c d e f del: append_assoc length_append take_append)
qed

section \<open>Leftmost match and first occurrence\<close>

lemma regexMatch_None_iff:
  "regexMatch re s = None \<longleftrightarrow> (\<forall>i \<le> length s. re (drop i s) = None)"
proof (induction s)
  case Nil
  show ?case by simp
next
  case (Cons c cs)
  have "(\<forall>i \<le> length (c # cs). re (drop i (c # cs)) = None)
        \<longleftrightarrow> re (c # cs) = None \<and> (\<forall>i \<le> length cs. re (drop i cs) = None)"
    by (simp add: all_le_Suc)
  with Cons.IH show ?case by (auto split: option.splits)
qed

lemma regexMatch_leftmost:
  assumes "re suf = Some r" and "\<forall>i < length pre. re (drop i (pre @ suf)) = None"
  shows "regexMatch re (pre @ suf) = Some r"
  using assms(2)
proof (induction pre)
  case Nil
  with assms(1) show ?case by (cases suf) auto
next
  case (Cons c pre)
  from Cons.prems have "re (c # pre @ suf) = None \<and> (\<forall>i < length pre. re (drop i (pre @ suf)) = None)"
    by (simp add: all_less_Suc)
  then show ?case using Cons.IH by simp
qed

lemma removeFirst_prefix: "removeFirst m (m @ post) = post"
proof (cases "m @ post")
  case Nil
  then show ?thesis by simp
next
  case (Cons a l)
  have "take (length m) (m @ post) = m" "drop (length m) (m @ post) = post" by simp_all
  then show ?thesis unfolding Cons by simp
qed

lemma removeFirst_first_occurrence:
  assumes "\<forall>i < length pre. take (length m) (drop i (pre @ m @ post)) \<noteq> m"
  shows "removeFirst m (pre @ m @ post) = pre @ post"
  using assms
proof (induction pre)
  case Nil
  show ?case by (simp add: removeFirst_prefix)
next
  case (Cons c pre)
  from Cons.prems have "take (length m) (c # pre @ m @ post) \<noteq> m
     \<and> (\<forall>i < length pre. take (length m) (drop i (pre @ m @ post)) \<noteq> m)"
    by (simp add: all_less_Suc)
  then show ?case using Cons.IH by simp
qed

lemma no_earlier_match:
  assumes leftmost: "\<forall>pre' m' g1' g2' post'. txt = pre' @ m' @ post' \<and> isCoordinateTag m' g1' g2'
                    \<longrightarrow> length pre \<le> length pre'"
      and ip: "i < length pre" and tsplit: "txt = pre @ suf"
  shows "COORDINATE_REGEX_at (drop i txt) = None"
proof (rule ccontr)
  assume "COORDINATE_REGEX_at (drop i txt) \<noteq> None"
  then obtain m' g1' g2' where "COORDINATE_REGEX_at (drop i txt) = Some (m', g1', g2')"
    by auto
  from COORDINATE_REGEX_at_sound[OF this] obtain rest where
    tag: "isCoordinateTag m' g1' g2'" and d: "drop i txt = m' @ rest" by blast
  have "txt = take i txt @ m' @ rest" using d by (metis append_take_drop_id)
  with leftmost tag have "length pre \<le> length (take i txt)" by blast
  with ip tsplit show False by simp
qed

lemma first_tag_is_matched:
  assumes tsplit: "txt = pre @ m @ post" and tag: "isCoordinateTag m g1 g2"
      and leftmost: "\<forall>pre' m' g1' g2' post'. txt = pre' @ m' @ post' \<and> isCoordinateTag m' g1' g2'
                    \<longrightarrow> length pre \<le> length pre'"
  shows "regexMatch COORDINATE_REGEX_at txt = Some (m, g1, g2)"
    and "removeFirst m txt = pre @ post"
proof -
  have none: "\<forall>i < length pre. COORDINATE_REGEX_at (drop i (pre @ m @ post)) = None"
    using no_earlier_match[OF leftmost _ tsplit] tsplit by simp
  show "regexMatch COORDINATE_REGEX_at txt = Some (m, g1, g2)"
    unfolding tsplit
    by (rule regexMatch_leftmost[OF COORDINATE_REGEX_at_complete[OF tag] none])
  have "\<forall>i < length pre. take (length m) (drop i (pre @ m @ post)) \<noteq> m"
  proof (intro allI impI notI)
    fix i assume i: "i < length pre" and eq: "take (length m) (drop i (pre @ m @ post)) = m"
    have "drop i (pre @ m @ post) = m @ drop (length m) (drop i (pre @ m @ post))"
      using eq by (metis append_take_drop_id)
    then have "COORDINATE_REGEX_at (drop i (pre @ m @ post)) = Some (m, g1, g2)"
      using COORDINATE_REGEX_at_complete[OF tag] by metis
    with none i show False by simp
  qed
  then show "removeFirst m txt = pre @ post"
    unfolding tsplit by (rule removeFirst_first_occurrence)
qed

lemma no_tag_no_match:
  assumes "\<not> (\<exists>pre m g1 g2 post. txt = pre @ m @ post \<and> isCoordinateTag m g1 g2)"
  shows "regexMatch COORDINATE_REGEX_at txt = None"
proof (rule ccontr)
  assume "regexMatch COORDINATE_REGEX_at txt \<noteq> None"
  then obtain i where "i \<le> length txt" "COORDINATE_REGEX_at (drop i txt) \<noteq> None"
    unfolding regexMatch_None_iff by blast
  then obtain m g1 g2 where "COORDINATE_REGEX_at (drop i txt) = Some (m, g1, g2)" by auto
  from COORDINATE_REGEX_at_sound[OF this] obtain rest where
    tag: "isCoordinateTag m g1 g2" and d: "drop i txt = m @ rest" by blast
  have "txt = take i txt @ m @ rest" using d by (metis append_take_drop_id)
  with tag assms show False by blast
qed

lemma valid_geoLocation: "isValidStoredLoc (geoLocation lat lng) \<Longrightarrow> lat \<noteq> NaN \<and> lng \<noteq> NaN"
  by (auto simp: isValidStoredLoc_def geoLocation_def finiteNumber_def js_inj)

lemma tag_starts_with_brace:
  "isCoordinateTag m g1 g2 \<Longrightarrow> \<exists>r. m = 123 # r"
  by (auto simp: isCoordinateTag_def js_literals)

lemma no_brace_no_tag:
  assumes "123 \<notin> set s"
  shows "\<not> (\<exists>pre m g1 g2 post. s = pre @ m @ post \<and> isCoordinateTag m g1 g2)"
proof
  assume "\<exists>pre m g1 g2 post. s = pre @ m @ post \<and> isCoordinateTag m g1 g2"
  then obtain pre m g1 g2 post where s: "s = pre @ m @ post" and t: "isCoordinateTag m g1 g2"
    by blast
  from tag_starts_with_brace[OF t] s have "123 \<in> set s" by auto
  with assms show False by simp
qed

lemma leftmost_if_no_brace:
  assumes "123 \<notin> set pre" and "txt = pre @ suf"
  shows "\<forall>pre' m' g1' g2' post'. txt = pre' @ m' @ post' \<and> isCoordinateTag m' g1' g2'
            \<longrightarrow> length pre \<le> length pre'"
proof (intro allI impI)
  fix pre' m' g1' g2' post'
  assume a: "txt = pre' @ m' @ post' \<and> isCoordinateTag m' g1' g2'"
  show "length pre \<le> length pre'"
  proof (rule ccontr)
    assume "\<not> length pre \<le> length pre'"
    then have lt: "length pre' < length pre" by simp
    from a tag_starts_with_brace obtain r where "m' = 123 # r" by blast
    with a have "txt ! length pre' = 123" by (simp add: nth_append)
    moreover from lt assms(2) have "txt ! length pre' = pre ! length pre'"
      by (simp add: nth_append)
    ultimately have "123 \<in> set pre" using lt by (metis nth_mem)
    with assms(1) show False by simp
  qed
qed

lemma example_tag:
  "isCoordinateTag (js ''{{LAT:48.8584, LNG:2.2945}}'') (js ''48.8584'') (js ''2.2945'')"
proof -
  have n1: "isNumberText (js ''48.8584'')" and n2: "isNumberText (js ''2.2945'')"
    unfolding isNumberText_iff_scan by (simp_all add: scanNumber_def js_def isDigit_def)
  have "list_all isSpace [32]" by (simp add: isSpace_def)
  moreover have "js ''{{LAT:48.8584, LNG:2.2945}}''
      = js ''{{LAT:'' @ js ''48.8584'' @ js '','' @ [32] @ js ''LNG:'' @ js ''2.2945'' @ js ''}}''"
    by (simp add: js_def)
  ultimately show ?thesis
    unfolding isCoordinateTag_def using n1 n2 by blast
qed

lemma example_parse:
  "parseFloat toDouble (js ''48.8584'') = toDouble 48.8584"
  "parseFloat toDouble (js ''2.2945'') = toDouble 2.2945"
  by (simp_all add: parseFloat_def js_def isDigit_def digitsValue_def)

lemma example_clean:
  "cleanTextOf (js ''Visit the tower. {{LAT:48.8584, LNG:2.2945}}'') = js ''Visit the tower.''"
  and example_suggested:
  "suggestedLocationOf toDouble (js ''Visit the tower. {{LAT:48.8584, LNG:2.2945}}'')
     = (if toDouble 48.8584 \<noteq> NaN \<and> toDouble 2.2945 \<noteq> NaN
        then geoLocation (toDouble 48.8584) (toDouble 2.2945) else JUndefined)"
proof -
  have split: "js ''Visit the tower. {{LAT:48.8584, LNG:2.2945}}''
      = js ''Visit the tower. '' @ js ''{{LAT:48.8584, LNG:2.2945}}'' @ []"
    by (simp add: js_def)
  have nb: "123 \<notin> set (js ''Visit the tower. '')" by (simp add: js_def)
  note fm = first_tag_is_matched[OF split example_tag leftmost_if_no_brace[OF nb split]]
  have tr: "trim (js ''Visit the tower. '' @ []) = js ''Visit the tower.''"
    by (simp add: trim_def js_def isSpace_def)
  show "cleanTextOf (js ''Visit the tower. {{LAT:48.8584, LNG:2.2945}}'') = js ''Visit the tower.''"
    by (simp only: cleanTextOf_def fm option.case prod.case tr)
  show "suggestedLocationOf toDouble (js ''Visit the tower. {{LAT:48.8584, LNG:2.2945}}'')
     = (if toDouble 48.8584 \<noteq> NaN \<and> toDouble 2.2945 \<noteq> NaN
        then geoLocation (toDouble 48.8584) (toDouble 2.2945) else JUndefined)"
    by (simp only: suggestedLocationOf_def fm option.case prod.case example_parse Let_def)
qed

lemma fallback_has_no_tag:
  "regexMatch COORDINATE_REGEX_at fallbackText = None"
proof -
  have "123 \<notin> set fallbackText" by (simp add: fallbackText_def js_def)
  from no_tag_no_match[OF no_brace_no_tag[OF this]] show ?thesis .
qed

section \<open>The pattern of the place citations\<close>

lemma MAPS_REGEX_at_sound:
  assumes "MAPS_REGEX_at s = Some (m, g1, g2)"
  shows "isNumberText g1 \<and> isNumberText g2 \<and> m = js ''!3d'' @ g1 @ js ''!4d'' @ g2
         \<and> (\<exists>rest. s = m @ rest)"
proof -
  from assms obtain r1 r2 r3 r4 where
    l1: "lit (js ''!3d'') s = Some r1" and n1: "scanNumber r1 = Some (g1, r2)"
    and l2: "lit (js ''!4d'') r2 = Some r3" and n2: "scanNumber r3 = Some (g2, r4)"
    and m: "m = take (length s - length r4) s"
    by (auto simp: MAPS_REGEX_at_def split: Option.bind_splits)
  have s: "s = (js ''!3d'' @ g1 @ js ''!4d'' @ g2) @ r4"
    using l1 l2 scanNumber_sound[OF n1] scanNumber_sound[OF n2]
    by (simp add: lit_Some_iff)
  have m': "m = js ''!3d'' @ g1 @ js ''!4d'' @ g2"
    unfolding m by (subst (1 2) s) simp
  show ?thesis
    using scanNumber_sound[OF n1] scanNumber_sound[OF n2] m' s by blast
qed

lemma MAPS_REGEX_at_complete:
  assumes "isNumberText g1" and "isNumberText g2"
      and "post = [] \<or> (\<not> isDigit (hd post) \<and> hd post \<noteq> 46)"
  shows "MAPS_REGEX_at (js ''!3d'' @ g1 @ js ''!4d'' @ g2 @ post)
           = Some (js ''!3d'' @ g1 @ js ''!4d'' @ g2, g1, g2)"
proof -
  have a: "lit (js ''!3d'') (js ''!3d'' @ g1 @ js ''!4d'' @ g2 @ post)
           = Some (g1 @ (js ''!4d'' @ g2 @ post))"
    by (simp add: lit_Some_iff)
  have b: "scanNumber (g1 @ (js ''!4d'' @ g2 @ post)) = Some (g1, js ''!4d'' @ g2 @ post)"
    by (rule scanNumber_complete[OF assms(1)]) (simp add: js_literals isDigit_def)
  have c: "lit (js ''!4d'') (js ''!4d'' @ g2 @ post) = Some (g2 @ post)"
    by simp
  have d: "scanNumber (g2 @ post) = Some (g2, post)"
    by (rule scanNumber_complete[OF assms(2,3)])
  have e: "take (length (js ''!3d'' @ g1 @ js ''!4d'' @ g2 @ post) - length post)
             (js ''!3d'' @ g1 @ js ''!4d'' @ g2 @ post) = js ''!3d'' @ g1 @ js ''!4d'' @ g2"
    by simp
  show ?thesis
    unfolding MAPS_REGEX_at_def a
    by (simp add: b c d e del: append_assoc length_append take_append)
qed

lemma MAPS_REGEX_at_defined_iff: "MAPS_REGEX_at s \<noteq> None \<longleftrightarrow> startsMapsPair s"
proof
  assume "MAPS_REGEX_at s \<noteq> None"
  then obtain m g1 g2 where "MAPS_REGEX_at s = Some (m, g1, g2)" by auto
  from MAPS_REGEX_at_sound[OF this] show "startsMapsPair s"
    unfolding startsMapsPair_def by (metis append_assoc)
next
  assume "startsMapsPair s"
  then obtain g1 g2 rest where n1: "isNumberText g1" and n2: "isNumberText g2"
    and s: "s = js ''!3d'' @ g1 @ js ''!4d'' @ g2 @ rest"
    unfolding startsMapsPair_def by blast
  have a: "lit (js ''!3d'') s = Some (g1 @ (js ''!4d'' @ g2 @ rest))"
    by (simp add: s lit_Some_iff)
  have b: "scanNumber (g1 @ (js ''!4d'' @ g2 @ rest)) = Some (g1, js ''!4d'' @ g2 @ rest)"
    by (rule scanNumber_complete[OF n1]) (simp add: js_literals isDigit_def)
  have c: "lit (js ''!4d'') (js ''!4d'' @ g2 @ rest) = Some (g2 @ rest)"
    by simp
  from scanNumber_defined[OF n2, of rest] obtain g2' r4 where
    d: "scanNumber (g2 @ rest) = Some (g2', r4)" by auto
  show "MAPS_REGEX_at s \<noteq> None"
    unfolding MAPS_REGEX_at_def a by (simp add: b c d del: append_assoc)
qed

lemma first_pair_is_matched:
  assumes "isNumberText g1" and "isNumberText g2"
      and "post = [] \<or> (\<not> isDigit (hd post) \<and> hd post \<noteq> 46)"
      and "\<forall>i < length pre. \<not> startsMapsPair (drop i (pre @ js ''!3d'' @ g1 @ js ''!4d'' @ g2 @ post))"
  shows "regexMatch MAPS_REGEX_at (pre @ js ''!3d'' @ g1 @ js ''!4d'' @ g2 @ post)
           = Some (js ''!3d'' @ g1 @ js ''!4d'' @ g2, g1, g2)"
proof -
  have "\<forall>i<length pre. MAPS_REGEX_at (drop i (pre @ js ''!3d'' @ g1 @ js ''!4d'' @ g2 @ post)) = None"
    using assms(4) MAPS_REGEX_at_defined_iff by blast
  with MAPS_REGEX_at_complete[OF assms(1,2,3)] show ?thesis
    by (rule regexMatch_leftmost)
qed

lemma uriLocations_length: "length (uriLocations toDouble u) \<le> 1"
  by (simp add: uriLocations_def Let_def split: option.splits)

lemma forEachChunk_concat:
  "list_all2 (\<lambda>c ls. chunkLocations toDouble c = Inr ls) cs lss
     \<Longrightarrow> forEachChunk toDouble cs = Inr (concat lss)"
  by (induction cs lss rule: list_all2_induct) auto

lemma chunkLocations_place:
  "lookup kvs (js ''maps'') = JObj mkvs \<Longrightarrow> lookup mkvs (js ''uri'') = JStr u
     \<Longrightarrow> chunkLocations toDouble (JObj kvs) = Inr (uriLocations toDouble u)"
  by (cases "u = []")
     (simp_all add: chunkLocations_def mapsUri_def uriLocations_def lit_def js_literals
        MAPS_REGEX_at_def)

lemma chunkLocations_web:
  "isNullish (lookup kvs (js ''maps'')) \<Longrightarrow> chunkLocations toDouble (JObj kvs) = Inr []"
  by (simp add: chunkLocations_def mapsUri_def)

lemma modelMessage_related:
  "modelMessage toDouble uuid now response = Inr message
     \<Longrightarrow> relatedLocationsOf toDouble (groundingChunks response) = Inr ls
     \<Longrightarrow> propOf message (js ''relatedLocations'') = (if ls = [] then JUndefined else JArr ls)"
  by (auto simp: modelMessage_def js_inj)

lemma pair_starts_with_bang: "startsMapsPair s \<Longrightarrow> \<exists>r. s = 33 # r"
  by (auto simp: startsMapsPair_def js_literals)

lemma no_bang_no_pair:
  assumes "33 \<notin> set pre"
  shows "\<forall>i < length pre. \<not> startsMapsPair (drop i (pre @ suf))"
proof (intro allI impI notI)
  fix i assume i: "i < length pre" and "startsMapsPair (drop i (pre @ suf))"
  from pair_starts_with_bang[OF this(2)] obtain r where "drop i (pre @ suf) = 33 # r" by blast
  then have "(pre @ suf) ! i = 33" by (metis Cons_nth_drop_Suc i length_append list.inject
        nth_via_drop trans_less_add1)
  with i have "pre ! i = 33" by (simp add: nth_append)
  with i assms show False by (metis nth_mem)
qed

lemma no_pair_no_match:
  assumes "\<forall>i \<le> length u. \<not> startsMapsPair (drop i u)"
  shows "regexMatch MAPS_REGEX_at u = None"
  unfolding regexMatch_None_iff using assms MAPS_REGEX_at_defined_iff by blast

lemma uriLocations_first_pair:
  assumes "isNumberText g1" and "isNumberText g2"
      and "post = [] \<or> (\<not> isDigit (hd post) \<and> hd post \<noteq> 46)"
      and "\<forall>i < length pre. \<not> startsMapsPair (drop i (pre @ js ''!3d'' @ g1 @ js ''!4d'' @ g2 @ post))"
  shows "uriLocations toDouble (pre @ js ''!3d'' @ g1 @ js ''!4d'' @ g2 @ post)
           = (if parseFloat toDouble g1 \<noteq> NaN \<and> parseFloat toDouble g2 \<noteq> NaN
              then [geoLocation (parseFloat toDouble g1) (parseFloat toDouble g2)] else [])"
  by (simp add: uriLocations_def first_pair_is_matched[OF assms] Let_def)

lemma relatedLocationsOf_array:
  "relatedLocationsOf toDouble (JArr cs) = forEachChunk toDouble cs"
  by (simp add: relatedLocationsOf_def)

lemma chunkLocations_placeCitation:
  "chunkLocations toDouble (placeCitation u) = Inr (uriLocations toDouble u)"
  unfolding placeCitation_def
  by (rule chunkLocations_place[where mkvs = "[(js ''uri'', JStr u)]"]) simp_all

lemma example_numbers:
  "isNumberText (js ''35.6895'')" "isNumberText (js ''139.6917'')"
  "parseFloat toDouble (js ''35.6895'') = toDouble 35.6895"
  "parseFloat toDouble (js ''139.6917'') = toDouble 139.6917"
  unfolding isNumberText_iff_scan
  by (simp_all add: scanNumber_def parseFloat_def js_def isDigit_def digitsValue_def)

lemma example_uri:
  "uriLocations toDouble (js ''https://maps.google.com/?cid=7!3d35.6895!4d139.6917'')
     = (if toDouble 35.6895 \<noteq> NaN \<and> toDouble 139.6917 \<noteq> NaN
        then [geoLocation (toDouble 35.6895) (toDouble 139.6917)] else [])"
proof -
  have split: "js ''https://maps.google.com/?cid=7!3d35.6895!4d139.6917''
     = js ''https://maps.google.com/?cid=7'' @ js ''!3d'' @ js ''35.6895'' @ js ''!4d''
         @ js ''139.6917'' @ []"
    by (simp add: js_def)
  have nb: "33 \<notin> set (js ''https://maps.google.com/?cid=7'')" by (simp add: js_def)
  show ?thesis
    unfolding split
    by (subst uriLocations_first_pair[OF example_numbers(1,2) _ no_bang_no_pair[OF nb]])
       (simp_all add: example_numbers)
qed

lemma digitsValue_zeros:
  "foldl (\<lambda>acc c. 10 * acc + (c - 48)) (a::nat) (replicate n 48) = a * 10 ^ n"
  by (induction n arbitrary: a) simp_all

lemma big_number:
  "isNumberText (49 # replicate 309 48)"
  "parseFloat ieeeOverflow (49 # replicate 309 48) = PosInfinity"
proof -
  have all: "list_all isDigit (49 # replicate 309 48)"
    by (simp add: isDigit_def list_all_iff)
  show "isNumberText (49 # replicate 309 48)"
    unfolding isNumberText_def
    apply (rule exI[of _ "[]"], rule exI[of _ "49 # replicate 309 48"])
    apply (rule exI[of _ "[]"], rule exI[of _ "[]"])
    using all by simp
  have tw: "takeWhile isDigit (49 # replicate 309 48) = 49 # replicate 309 48"
    and dw: "dropWhile isDigit (49 # replicate 309 48) = []"
    using takeWhile_digits_append[OF all, of "[]"] by simp_all
  have dv: "digitsValue (49 # replicate 309 48) = 10 ^ 309"
    by (simp add: digitsValue_def digitsValue_zeros)
  have d0: "digitsValue [] = 0" by (simp add: digitsValue_def)
  show "parseFloat ieeeOverflow (49 # replicate 309 48) = PosInfinity"
    unfolding parseFloat_def Let_def
    by (simp add: tw dw dv d0 ieeeOverflow_def del: takeWhile.simps dropWhile.simps)
qed

lemma parser_yields_infinite_latitude:
  "suggestedLocationOf ieeeOverflow (js ''{{LAT:'' @ 49 # replicate 309 48 @ js '', LNG:0}}'')
     = geoLocation PosInfinity (Finite 0)"
proof -
  have n0: "isNumberText (js ''0'')" "parseFloat ieeeOverflow (js ''0'') = Finite 0"
    unfolding isNumberText_iff_scan
    by (simp_all add: scanNumber_def parseFloat_def js_def isDigit_def digitsValue_def
          ieeeOverflow_def)
  have sp: "list_all isSpace [32]" by (simp add: isSpace_def)
  have m: "js ''{{LAT:'' @ 49 # replicate 309 48 @ js '', LNG:0}}''
      = js ''{{LAT:'' @ (49 # replicate 309 48) @ js '','' @ [32] @ js ''LNG:'' @ js ''0'' @ js ''}}''"
    by (simp add: js_def)
  have tag: "isCoordinateTag (js ''{{LAT:'' @ 49 # replicate 309 48 @ js '', LNG:0}}'')
               (49 # replicate 309 48) (js ''0'')"
    unfolding isCoordinateTag_def using big_number(1) n0(1) sp m by blast
  have tsplit: "js ''{{LAT:'' @ 49 # replicate 309 48 @ js '', LNG:0}}''
      = [] @ (js ''{{LAT:'' @ 49 # replicate 309 48 @ js '', LNG:0}}'') @ []"
    by simp
  have nb: "123 \<notin> set ([] :: jstring)" by simp
  note fm = first_tag_is_matched[OF tsplit tag leftmost_if_no_brace[OF nb tsplit]]
  show ?thesis
    by (simp only: suggestedLocationOf_def fm(1) option.case prod.case Let_def big_number(2) n0(2))
       simp
qed

section \<open>The request and the fallback text\<close>

lemma fallback_clean: "cleanTextOf fallbackText = fallbackText"
  by (simp add: cleanTextOf_def fallback_has_no_tag)

lemma replyText_fallback:
  "response_text response = None \<or> response_text response = Some []
     \<Longrightarrow> replyText response = fallbackText"
  by (auto simp: replyText_def)

lemma historyContext_shape:
  assumes "historyContext chatHistory = Inr contents"
  shows "\<exists>older recent. chatHistory = older @ recent
           \<and> length recent = min 10 (length chatHistory)
           \<and> contents = map (\<lambda>msg. JObj [(js ''role'', propOf msg (js ''role'')),
                   (js ''parts'', JArr [JObj [(js ''text'', propOf msg (js ''text''))]])]) recent"
proof -
  define older where "older = take (length chatHistory - 10) chatHistory"
  define recent where "recent = drop (length chatHistory - 10) chatHistory"
  have 1: "chatHistory = older @ recent" by (simp add: older_def recent_def)
  have 2: "length recent = min 10 (length chatHistory)" by (auto simp: recent_def)
  from assms have "list_all2 (\<lambda>msg entry. historyEntry msg = Inr entry) recent contents"
    by (simp add: historyContext_def mapE_Inr_iff recent_def)
  then have "list_all2 (\<lambda>msg entry. entry = JObj [(js ''role'', propOf msg (js ''role'')),
                   (js ''parts'', JArr [JObj [(js ''text'', propOf msg (js ''text''))]])])
               recent contents"
    by (rule list_all2_mono) (auto simp: historyEntry_def split: if_splits)
  then have 3: "contents = map (\<lambda>msg. JObj [(js ''role'', propOf msg (js ''role'')),
                   (js ''parts'', JArr [JObj [(js ''text'', propOf msg (js ''text''))]])]) recent"
    by (induction recent contents rule: list_all2_induct) auto
  from 1 2 3 show ?thesis by blast
qed

lemma historyContext_succeeds:
  assumes "list_all (\<lambda>m. \<not> isNullish m) chatHistory"
  shows "\<exists>contents. historyContext chatHistory = Inr contents"
proof -
  have "\<exists>ys. mapE historyEntry (drop (length chatHistory - 10) chatHistory) = Inr ys"
  proof (rule mapE_succeeds)
    fix x assume "x \<in> set (drop (length chatHistory - 10) chatHistory)"
    then have "x \<in> set chatHistory" by (rule in_set_dropD)
    with assms have "\<not> isNullish x" by (simp add: list_all_iff)
    then show "\<exists>y. historyEntry x = Inr y" by (simp add: historyEntry_def)
  qed
  then show ?thesis by (simp add: historyContext_def)
qed

section \<open>Facts about the example inputs\<close>

lemma isValidStoredLoc_geoLocation:
  "isValidStoredLoc (geoLocation a b) \<longleftrightarrow> isFinite a \<and> isFinite b"
  by (cases a; cases b; simp add: isValidStoredLoc_def finiteNumber_def geoLocation_def js_inj)

lemma chunkLocations_webCitation: "chunkLocations toDouble (webCitation u) = Inr []"
  unfolding webCitation_def by (rule chunkLocations_web) (simp add: js_inj)

section \<open>The claims\<close>

text \<open>
  \<^bold>\<open>Claim C1\<close> (as amended). Both validators accept a value if and only if it is an
  object whose \<^verbatim>\<open>lat\<close> and \<^verbatim>\<open>lng\<close> are numbers that are neither NaN nor infinite;
  they make no test of range. Every other value (a NaN or infinite coordinate, a missing
  field, a coordinate that is no number, a value that is no object) is rejected. A
  location that the validators reject is never a \<^verbatim>\<open>suggestedLocation\<close> or an entry of
  \<^verbatim>\<open>relatedLocations\<close> of a message of a session loaded from storage, and neither the
  completion of a send nor a switch of session makes it the \<^verbatim>\<open>targetLocation\<close>.
\<close>

theorem validator_accepts_finite_coordinates:
  "(isValidStoredLoc v \<longleftrightarrow>
      (\<exists>kvs x y. v = JObj kvs \<and> lookup kvs (js ''lat'') = JNum (Finite x)
                 \<and> lookup kvs (js ''lng'') = JNum (Finite y)))
   \<and> isValidLocation v = isValidStoredLoc v
   \<and> list_all sessionLocationsValid (initialSessions parse getItem uuid now)
   \<and> (targetLocation (handleSendMessage_settled st outcome uuid now) = targetLocation st
      \<or> isValidStoredLoc (targetLocation (handleSendMessage_settled st outcome uuid now)))
   \<and> (loadSession st sessionId = Inr st' \<longrightarrow>
        targetLocation st' = targetLocation st \<or> targetLocation st' = JNull
        \<or> isValidStoredLoc (targetLocation st'))"
  using isValidStoredLoc_iff[of v] isValidLocation_eq[of v]
        initialSessions_valid[of parse getItem uuid now]
        settled_target[of st outcome uuid now] loadSession_target[of st sessionId st']
  by blast

theorem validator_accepts_finite_coordinates_witness:
  "isValidStoredLoc (geoLocation (Finite 48.8584) (Finite 2.2945))
   \<and> \<not> isValidStoredLoc (geoLocation NaN (Finite 2.2945))
   \<and> \<not> isValidStoredLoc (geoLocation (Finite 48.8584) PosInfinity)
   \<and> \<not> isValidStoredLoc (JObj [(js ''lat'', JNum (Finite 48.8584))])
   \<and> \<not> isValidStoredLoc (JObj [(js ''lat'', JStr (js ''48.8584'')), (js ''lng'', JNum (Finite 2.2945))])
   \<and> \<not> isValidStoredLoc (JStr (js ''48.8584,2.2945''))
   \<and> loadSession
        (idleState\<lparr>sessions :=
           [JObj [(js ''id'', JStr (js ''a'')),
                  (js ''messages'',
                   JArr [JObj [(js ''suggestedLocation'', geoLocation (Finite 100) PosInfinity)]])]]\<rparr>)
        (js ''a'')
       = Inr (idleState\<lparr>sessions :=
           [JObj [(js ''id'', JStr (js ''a'')),
                  (js ''messages'',
                   JArr [JObj [(js ''suggestedLocation'', geoLocation (Finite 100) PosInfinity)]])]],
           currentSessionId := JStr (js ''a''),
           messages := [JObj [(js ''suggestedLocation'', geoLocation (Finite 100) PosInfinity)]]\<rparr>)
   \<and> targetLocation (idleState\<lparr>sessions :=
           [JObj [(js ''id'', JStr (js ''a'')),
                  (js ''messages'',
                   JArr [JObj [(js ''suggestedLocation'', geoLocation (Finite 100) PosInfinity)]])]],
           currentSessionId := JStr (js ''a''),
           messages := [JObj [(js ''suggestedLocation'', geoLocation (Finite 100) PosInfinity)]]\<rparr>)
       = JNull"
proof -
  note iff = validator_accepts_finite_coordinates[THEN conjunct1]
  have "\<exists>kvs x y. geoLocation (Finite 48.8584) (Finite 2.2945) = JObj kvs
            \<and> lookup kvs (js ''lat'') = JNum (Finite x)
            \<and> lookup kvs (js ''lng'') = JNum (Finite y)"
    by (rule exI[of _ "[(js ''lat'', JNum (Finite 48.8584)), (js ''lng'', JNum (Finite 2.2945))]"],
        rule exI[of _ "48.8584"], rule exI[of _ "2.2945"])
       (simp add: geoLocation_def js_inj)
  then have 1: "isValidStoredLoc (geoLocation (Finite 48.8584) (Finite 2.2945))"
    by (rule iff[THEN iffD2])
  have 2: "\<not> isValidStoredLoc (geoLocation NaN (Finite 2.2945))"
    unfolding iff by (simp add: geoLocation_def js_inj)
  have 3: "\<not> isValidStoredLoc (geoLocation (Finite 48.8584) PosInfinity)"
    unfolding iff by (simp add: geoLocation_def js_inj)
  have 4: "\<not> isValidStoredLoc (JObj [(js ''lat'', JNum (Finite 48.8584))])"
    unfolding iff by (simp add: js_inj)
  have 5: "\<not> isValidStoredLoc (JObj [(js ''lat'', JStr (js ''48.8584'')), (js ''lng'', JNum (Finite 2.2945))])"
    unfolding iff by (simp add: js_inj)
  have 6: "\<not> isValidStoredLoc (JStr (js ''48.8584,2.2945''))"
    unfolding iff by simp
  have bad: "\<not> isValidStoredLoc (geoLocation (Finite 100) PosInfinity)"
    unfolding iff by (simp add: geoLocation_def js_inj)
  have ld: "loadSession
        (idleState\<lparr>sessions :=
           [JObj [(js ''id'', JStr (js ''a'')),
                  (js ''messages'',
                   JArr [JObj [(js ''suggestedLocation'', geoLocation (Finite 100) PosInfinity)]])]]\<rparr>)
        (js ''a'')
       = Inr (idleState\<lparr>sessions :=
           [JObj [(js ''id'', JStr (js ''a'')),
                  (js ''messages'',
                   JArr [JObj [(js ''suggestedLocation'', geoLocation (Finite 100) PosInfinity)]])]],
           currentSessionId := JStr (js ''a''),
           messages := [JObj [(js ''suggestedLocation'', geoLocation (Finite 100) PosInfinity)]]\<rparr>)"
    using bad
    by (simp add: loadSession_def hasId_def hasSuggestedLocation_def restoredTarget_def
          js_inj idleState_def)
  have tg: "targetLocation (idleState\<lparr>sessions :=
           [JObj [(js ''id'', JStr (js ''a'')),
                  (js ''messages'',
                   JArr [JObj [(js ''suggestedLocation'', geoLocation (Finite 100) PosInfinity)]])]],
           currentSessionId := JStr (js ''a''),
           messages := [JObj [(js ''suggestedLocation'', geoLocation (Finite 100) PosInfinity)]]\<rparr>)
       = JNull"
    using validator_accepts_finite_coordinates[THEN conjunct2, THEN conjunct2, THEN conjunct2,
            THEN conjunct2, rule_format, OF ld]
    by (simp add: idleState_def)
  from 1 2 3 4 5 6 ld tg show ?thesis by blast
qed

text \<open>
  The claim as stated fails: the latitude 100 is outside \<open>[-90, 90]\<close>, both validators
  accept it, and the completion of a send makes it the \<^verbatim>\<open>targetLocation\<close>.
\<close>

theorem validator_has_no_range_check:
  "isValidStoredLoc (geoLocation (Finite 100) (Finite 0))
   \<and> isValidLocation (geoLocation (Finite 100) (Finite 0))
   \<and> \<not> (100 \<le> (90::rat))
   \<and> targetLocation
        (handleSendMessage_settled idleState
           (Inr (JObj [(js ''suggestedLocation'', geoLocation (Finite 100) (Finite 0))]))
           (js ''id'') (Finite 0))
       = geoLocation (Finite 100) (Finite 0)"
  by (simp add: isValidStoredLoc_def isValidLocation_def finiteNumber_def geoLocation_def
        handleSendMessage_settled_def js_inj idleState_def)

text \<open>
  \<^bold>\<open>Claim C2.\<close> For every reply text: when the text holds no tag
  \<^verbatim>\<open>{{LAT:<number>, LNG:<number>}}\<close>, the clean text is the text unchanged and no location
  is suggested. When it holds one, let \<open>m\<close> be the first (leftmost) tag, \<open>pre\<close> the text
  before it and \<open>post\<close> the text after it: the clean text is \<open>pre @ post\<close> trimmed, so
  exactly that occurrence is removed, whatever the numbers parse to; the suggested location
  is the pair of parsed numbers when neither is NaN, in particular whenever the pair is
  valid (the numbers of a tag always parse to what the number conversion gives). The text
  that is parsed is the value of the variable \<^verbatim>\<open>text\<close>: the reply, or the fallback
  text when the reply is empty. The reply \<^verbatim>\<open>"Visit the tower. {{LAT:48.8584, LNG:2.2945}}"\<close> with no citations
  yields the clean text \<^verbatim>\<open>"Visit the tower."\<close> and the suggested location
  \<^verbatim>\<open>{lat: 48.8584, lng: 2.2945}\<close>.
\<close>

theorem coordinate_tag_is_removed_and_parsed:
  "(\<not> (\<exists>pre m g1 g2 post. txt = pre @ m @ post \<and> isCoordinateTag m g1 g2)
      \<longrightarrow> cleanTextOf txt = txt \<and> suggestedLocationOf toDouble txt = JUndefined)
   \<and> (txt = pre @ m @ post \<and> isCoordinateTag m g1 g2
       \<and> (\<forall>pre' m' g1' g2' post'. txt = pre' @ m' @ post' \<and> isCoordinateTag m' g1' g2'
             \<longrightarrow> length pre \<le> length pre')
      \<longrightarrow> cleanTextOf txt = trim (pre @ post)
          \<and> suggestedLocationOf toDouble txt
              = (if parseFloat toDouble g1 \<noteq> NaN \<and> parseFloat toDouble g2 \<noteq> NaN
                 then geoLocation (parseFloat toDouble g1) (parseFloat toDouble g2)
                 else JUndefined)
          \<and> (isValidStoredLoc (geoLocation (parseFloat toDouble g1) (parseFloat toDouble g2))
              \<longrightarrow> suggestedLocationOf toDouble txt
                    = geoLocation (parseFloat toDouble g1) (parseFloat toDouble g2)))
   \<and> cleanTextOf (js ''Visit the tower. {{LAT:48.8584, LNG:2.2945}}'') = js ''Visit the tower.''
   \<and> (toDouble 48.8584 \<noteq> NaN \<and> toDouble 2.2945 \<noteq> NaN
      \<longrightarrow> suggestedLocationOf toDouble (js ''Visit the tower. {{LAT:48.8584, LNG:2.2945}}'')
            = geoLocation (toDouble 48.8584) (toDouble 2.2945)
          \<and> modelMessage toDouble uuid now
               \<lparr>response_text = Some (js ''Visit the tower. {{LAT:48.8584, LNG:2.2945}}''),
                groundingChunks = JArr []\<rparr>
            = Inr (JObj
                [(js ''id'', JStr uuid),
                 (js ''role'', JStr (js ''model'')),
                 (js ''text'', JStr (js ''Visit the tower.'')),
                 (js ''groundingChunks'', JArr []),
                 (js ''suggestedLocation'', geoLocation (toDouble 48.8584) (toDouble 2.2945)),
                 (js ''relatedLocations'', JUndefined),
                 (js ''timestamp'', JNum now)]))
   \<and> (isCoordinateTag m g1 g2
      \<longrightarrow> (\<exists>q1 q2. parseFloat toDouble g1 = toDouble q1
                     \<and> parseFloat toDouble g2 = toDouble q2))"
proof (intro conjI impI)
  assume a: "\<not> (\<exists>pre m g1 g2 post. txt = pre @ m @ post \<and> isCoordinateTag m g1 g2)"
  show "cleanTextOf txt = txt" "suggestedLocationOf toDouble txt = JUndefined"
    using no_tag_no_match[OF a] by (simp_all add: cleanTextOf_def suggestedLocationOf_def)
next
  assume a: "txt = pre @ m @ post \<and> isCoordinateTag m g1 g2
       \<and> (\<forall>pre' m' g1' g2' post'. txt = pre' @ m' @ post' \<and> isCoordinateTag m' g1' g2'
             \<longrightarrow> length pre \<le> length pre')"
  then have tsplit: "txt = pre @ m @ post" and tag: "isCoordinateTag m g1 g2"
    and leftmost: "\<forall>pre' m' g1' g2' post'. txt = pre' @ m' @ post' \<and> isCoordinateTag m' g1' g2'
             \<longrightarrow> length pre \<le> length pre'" by blast+
  note fm = first_tag_is_matched[OF tsplit tag leftmost]
  show "cleanTextOf txt = trim (pre @ post)"
    by (simp add: cleanTextOf_def fm)
  show s: "suggestedLocationOf toDouble txt
              = (if parseFloat toDouble g1 \<noteq> NaN \<and> parseFloat toDouble g2 \<noteq> NaN
                 then geoLocation (parseFloat toDouble g1) (parseFloat toDouble g2)
                 else JUndefined)"
    by (simp add: suggestedLocationOf_def fm Let_def)
  assume "isValidStoredLoc (geoLocation (parseFloat toDouble g1) (parseFloat toDouble g2))"
  from valid_geoLocation[OF this] s
  show "suggestedLocationOf toDouble txt
          = geoLocation (parseFloat toDouble g1) (parseFloat toDouble g2)"
    by simp
next
  show "cleanTextOf (js ''Visit the tower. {{LAT:48.8584, LNG:2.2945}}'') = js ''Visit the tower.''"
    by (rule example_clean)
next
  assume n: "toDouble 48.8584 \<noteq> NaN \<and> toDouble 2.2945 \<noteq> NaN"
  then show s: "suggestedLocationOf toDouble (js ''Visit the tower. {{LAT:48.8584, LNG:2.2945}}'')
            = geoLocation (toDouble 48.8584) (toDouble 2.2945)"
    by (simp add: example_suggested)
  have r: "replyText \<lparr>response_text = Some (js ''Visit the tower. {{LAT:48.8584, LNG:2.2945}}''),
                groundingChunks = JArr []\<rparr> = js ''Visit the tower. {{LAT:48.8584, LNG:2.2945}}''"
    by (simp add: replyText_def js_def)
  show "modelMessage toDouble uuid now
               \<lparr>response_text = Some (js ''Visit the tower. {{LAT:48.8584, LNG:2.2945}}''),
                groundingChunks = JArr []\<rparr>
            = Inr (JObj
                [(js ''id'', JStr uuid),
                 (js ''role'', JStr (js ''model'')),
                 (js ''text'', JStr (js ''Visit the tower.'')),
                 (js ''groundingChunks'', JArr []),
                 (js ''suggestedLocation'', geoLocation (toDouble 48.8584) (toDouble 2.2945)),
                 (js ''relatedLocations'', JUndefined),
                 (js ''timestamp'', JNum now)])"
    unfolding modelMessage_def r s example_clean
    by (simp add: relatedLocationsOf_array)
next
  assume "isCoordinateTag m g1 g2"
  then have "isNumberText g1" "isNumberText g2" by (simp_all add: isCoordinateTag_def)
  from parseFloat_number[OF this(1), of toDouble] parseFloat_number[OF this(2), of toDouble]
  show "\<exists>q1 q2. parseFloat toDouble g1 = toDouble q1 \<and> parseFloat toDouble g2 = toDouble q2"
    by blast
qed

theorem coordinate_tag_is_removed_and_parsed_witness:
  "isCoordinateTag (js ''{{LAT:-33.8688,LNG:151.2093}}'') (js ''-33.8688'') (js ''151.2093'')
   \<and> cleanTextOf (js ''  See {{LAT:-33.8688,LNG:151.2093}} or {{LAT:1, LNG:2}}.'')
       = js ''See  or {{LAT:1, LNG:2}}.''
   \<and> suggestedLocationOf Finite (js ''  See {{LAT:-33.8688,LNG:151.2093}} or {{LAT:1, LNG:2}}.'')
       = geoLocation (Finite (- 33.8688)) (Finite 151.2093)
   \<and> cleanTextOf (js '' No location here. '') = js '' No location here. ''
   \<and> suggestedLocationOf Finite (js '' No location here. '') = JUndefined"
proof -
  have n1: "isNumberText (js ''-33.8688'')" and n2: "isNumberText (js ''151.2093'')"
    unfolding isNumberText_iff_scan by (simp_all add: scanNumber_def js_def isDigit_def)
  have "list_all isSpace []" by simp
  moreover have "js ''{{LAT:-33.8688,LNG:151.2093}}''
      = js ''{{LAT:'' @ js ''-33.8688'' @ js '','' @ [] @ js ''LNG:'' @ js ''151.2093'' @ js ''}}''"
    by (simp add: js_def)
  ultimately have tag:
    "isCoordinateTag (js ''{{LAT:-33.8688,LNG:151.2093}}'') (js ''-33.8688'') (js ''151.2093'')"
    unfolding isCoordinateTag_def using n1 n2 by blast
  have tsplit: "js ''  See {{LAT:-33.8688,LNG:151.2093}} or {{LAT:1, LNG:2}}.''
      = js ''  See '' @ js ''{{LAT:-33.8688,LNG:151.2093}}'' @ js '' or {{LAT:1, LNG:2}}.''"
    by (simp add: js_def)
  have nb: "123 \<notin> set (js ''  See '')" by (simp add: js_def)
  have p: "parseFloat Finite (js ''-33.8688'') = Finite (- 33.8688)"
          "parseFloat Finite (js ''151.2093'') = Finite 151.2093"
    by (simp_all add: parseFloat_def js_def isDigit_def digitsValue_def)
  have tr: "trim (js ''  See '' @ js '' or {{LAT:1, LNG:2}}.'') = js ''See  or {{LAT:1, LNG:2}}.''"
    by (simp add: trim_def js_def isSpace_def)
  from coordinate_tag_is_removed_and_parsed[THEN conjunct2, THEN conjunct1, rule_format,
         of "js ''  See {{LAT:-33.8688,LNG:151.2093}} or {{LAT:1, LNG:2}}.''"
            "js ''  See ''" "js ''{{LAT:-33.8688,LNG:151.2093}}''" "js '' or {{LAT:1, LNG:2}}.''"
            "js ''-33.8688''" "js ''151.2093''" Finite]
       tsplit tag leftmost_if_no_brace[OF nb tsplit]
  have c: "cleanTextOf (js ''  See {{LAT:-33.8688,LNG:151.2093}} or {{LAT:1, LNG:2}}.'')
             = js ''See  or {{LAT:1, LNG:2}}.''"
    and s: "suggestedLocationOf Finite (js ''  See {{LAT:-33.8688,LNG:151.2093}} or {{LAT:1, LNG:2}}.'')
             = geoLocation (Finite (- 33.8688)) (Finite 151.2093)"
    unfolding p tr by simp_all
  have nb2: "123 \<notin> set (js '' No location here. '')" by (simp add: js_def)
  from coordinate_tag_is_removed_and_parsed[THEN conjunct1, rule_format,
         OF no_brace_no_tag[OF nb2], of Finite]
  have d: "cleanTextOf (js '' No location here. '') = js '' No location here. ''"
          "suggestedLocationOf Finite (js '' No location here. '') = JUndefined"
    by simp_all
  from tag c s d show ?thesis by blast
qed

text \<open>
  \<^bold>\<open>Claim C3\<close> (as amended). For related locations that are an array (or absent): when
  at least one of them is valid, the points are the valid related locations followed by
  the target, if valid; \<^verbatim>\<open>fitBounds\<close> over these points (padding 50, zoom at most 15,
  1.5 seconds) is issued when the map library reports their bounds valid, nothing (NoOp)
  when it does not, and the single target is not flown to in either case. The code makes
  no test of its own for a rectangle that is a single point. When no related location is
  valid, a valid target yields \<^verbatim>\<open>flyTo\<close> (zoom 15, 2 seconds), and otherwise nothing is
  done.
\<close>

theorem MapUpdater_decision:
  assumes "related = JArr ls \<or> (isNullish related \<and> ls = [])"
  shows "MapUpdater boundsValid target related =
           Inr (if filter isValidLocation ls \<noteq> []
                then (if boundsValid (map latLng (filter isValidLocation ls)
                                      @ (if isValidLocation target then [latLng target] else []))
                      then FitBounds (map latLng (filter isValidLocation ls)
                                      @ (if isValidLocation target then [latLng target] else []))
                             (50, 50) 15 True (3 / 2)
                      else NoOp)
                else if isValidLocation target then FlyTo (latLng target) 15 2
                else NoOp)"
  using assms by (cases related) (auto simp: MapUpdater_def Let_def)

theorem MapUpdater_decision_witness:
  "MapUpdater nonEmptyBounds (geoLocation (Finite 48.8584) (Finite 2.2945))
     (JArr [geoLocation (Finite 35.6895) (Finite 139.6917), geoLocation NaN (Finite 0),
            geoLocation (Finite 51.5) (Finite (- 0.12))])
     = Inr (FitBounds [(JNum (Finite 35.6895), JNum (Finite 139.6917)),
                       (JNum (Finite 51.5), JNum (Finite (- 0.12))),
                       (JNum (Finite 48.8584), JNum (Finite 2.2945))] (50, 50) 15 True (3 / 2))
   \<and> MapUpdater nonEmptyBounds (geoLocation (Finite 48.8584) (Finite 2.2945)) (JArr [])
     = Inr (FlyTo (JNum (Finite 48.8584), JNum (Finite 2.2945)) 15 2)
   \<and> MapUpdater nonEmptyBounds JNull JUndefined = Inr NoOp"
proof -
  have v: "isValidLocation (geoLocation a b) \<longleftrightarrow> isFinite a \<and> isFinite b"
    "\<not> isValidLocation JNull" for a b
    by (cases a; cases b;
        simp add: isValidLocation_def finiteNumber_def geoLocation_def js_inj)+
  have l: "latLng (geoLocation a b) = (JNum a, JNum b)" for a b
    by (simp add: latLng_def geoLocation_def js_inj)
  have 1: "MapUpdater nonEmptyBounds (geoLocation (Finite 48.8584) (Finite 2.2945))
     (JArr [geoLocation (Finite 35.6895) (Finite 139.6917), geoLocation NaN (Finite 0),
            geoLocation (Finite 51.5) (Finite (- 0.12))])
     = Inr (FitBounds [(JNum (Finite 35.6895), JNum (Finite 139.6917)),
                       (JNum (Finite 51.5), JNum (Finite (- 0.12))),
                       (JNum (Finite 48.8584), JNum (Finite 2.2945))] (50, 50) 15 True (3 / 2))"
    by (subst MapUpdater_decision[where ls = "[geoLocation (Finite 35.6895) (Finite 139.6917),
            geoLocation NaN (Finite 0), geoLocation (Finite 51.5) (Finite (- 0.12))]"])
       (simp_all add: v l nonEmptyBounds_def)
  have 2: "MapUpdater nonEmptyBounds (geoLocation (Finite 48.8584) (Finite 2.2945)) (JArr [])
     = Inr (FlyTo (JNum (Finite 48.8584), JNum (Finite 2.2945)) 15 2)"
    by (subst MapUpdater_decision[where ls = "[]"]) (simp_all add: v l)
  have 3: "MapUpdater nonEmptyBounds JNull JUndefined = Inr NoOp"
    by (subst MapUpdater_decision[where ls = "[]"]) (simp_all add: v)
  from 1 2 3 show ?thesis by blast
qed

text \<open>
  The claim as stated fails at a single related location and no target: with a validity
  test that holds of bounds built from one point, as Leaflet's does, the rectangle is
  that one point and \<^verbatim>\<open>fitBounds\<close> is issued all the same.
\<close>

theorem single_related_point_is_fitted:
  "MapUpdater nonEmptyBounds JNull (JArr [geoLocation (Finite 35.6895) (Finite 139.6917)])
     = Inr (FitBounds [(JNum (Finite 35.6895), JNum (Finite 139.6917))] (50, 50) 15 True (3 / 2))"
  by (simp add: MapUpdater_def isValidLocation_def finiteNumber_def geoLocation_def latLng_def
        js_inj nonEmptyBounds_def)



text \<open>
  \<^bold>\<open>Claim C5.\<close> Sanitization is idempotent. When the sanitization of a collection of
  stored sessions succeeds with the collection \<open>ss'\<close>, sanitizing \<open>ss'\<close> again succeeds
  and returns \<open>ss'\<close> unchanged; the same holds of the list of messages that the migration
  of a legacy history sanitizes.
\<close>

theorem sanitization_idempotent:
  "(mapE sanitizeSession ss = Inr ss' \<longrightarrow> mapE sanitizeSession ss' = Inr ss')
   \<and> (mapE sanitizeMessage ms = Inr ms' \<longrightarrow> mapE sanitizeMessage ms' = Inr ms')"
proof (intro conjI impI)
  assume "mapE sanitizeSession ss = Inr ss'"
  with sanitizeSession_idem show "mapE sanitizeSession ss' = Inr ss'"
    by (rule mapE_idem)
next
  assume "mapE sanitizeMessage ms = Inr ms'"
  with sanitizeMessage_idem show "mapE sanitizeMessage ms' = Inr ms'"
    by (rule mapE_idem)
qed

theorem sanitization_idempotent_witness:
  "mapE sanitizeSession
     [JObj [(js ''id'', JStr (js ''s1'')),
            (js ''messages'', JArr
               [JObj [(js ''text'', JStr (js ''hi'')),
                      (js ''suggestedLocation'', geoLocation NaN (Finite 2)),
                      (js ''relatedLocations'',
                         JArr [geoLocation (Finite 1) (Finite 2), JStr (js ''x'')])]])]]
   = Inr [JObj [(js ''id'', JStr (js ''s1'')),
            (js ''messages'', JArr
               [JObj [(js ''text'', JStr (js ''hi'')),
                      (js ''suggestedLocation'', JUndefined),
                      (js ''relatedLocations'', JArr [geoLocation (Finite 1) (Finite 2)])]])]]
   \<and> mapE sanitizeSession
     [JObj [(js ''id'', JStr (js ''s1'')),
            (js ''messages'', JArr
               [JObj [(js ''text'', JStr (js ''hi'')),
                      (js ''suggestedLocation'', JUndefined),
                      (js ''relatedLocations'', JArr [geoLocation (Finite 1) (Finite 2)])]])]]
   = Inr [JObj [(js ''id'', JStr (js ''s1'')),
            (js ''messages'', JArr
               [JObj [(js ''text'', JStr (js ''hi'')),
                      (js ''suggestedLocation'', JUndefined),
                      (js ''relatedLocations'', JArr [geoLocation (Finite 1) (Finite 2)])]])]]"
proof -
  have h: "mapE sanitizeSession
     [JObj [(js ''id'', JStr (js ''s1'')),
            (js ''messages'', JArr
               [JObj [(js ''text'', JStr (js ''hi'')),
                      (js ''suggestedLocation'', geoLocation NaN (Finite 2)),
                      (js ''relatedLocations'',
                         JArr [geoLocation (Finite 1) (Finite 2), JStr (js ''x'')])]])]]
   = Inr [JObj [(js ''id'', JStr (js ''s1'')),
            (js ''messages'', JArr
               [JObj [(js ''text'', JStr (js ''hi'')),
                      (js ''suggestedLocation'', JUndefined),
                      (js ''relatedLocations'', JArr [geoLocation (Finite 1) (Finite 2)])]])]]"
    by (simp add: sanitizeSession_def sanitizeMessage_def isValidStoredLoc_def
        finiteNumber_def geoLocation_def js_inj)
  from sanitization_idempotent[THEN conjunct1, rule_format, OF h] h show ?thesis by simp
qed

text \<open>
  \<^bold>\<open>Claim C6\<close> (as amended). For every list of citations whose extraction succeeds, the
  related locations are the contributions of the citations in citation order. A place
  citation contributes what its URI yields, a citation without \<^verbatim>\<open>maps\<close> nothing, and a
  URI yields at most one location: none when no position of it starts
  \<^verbatim>\<open>!3d<number>!4d<number>\<close>, and otherwise the pair of numbers of the first such
  occurrence, kept when neither number is NaN. No other test is made of the pair: the
  validator is not applied here. A message with no extracted location has
  \<^verbatim>\<open>relatedLocations\<close> \<^verbatim>\<open>undefined\<close>, not an empty array. A citation whose URI is
  \<^verbatim>\<open>https://maps.google.com/?cid=7!3d35.6895!4d139.6917\<close> yields exactly the one
  location \<^verbatim>\<open>{lat: 35.6895, lng: 139.6917}\<close>.
\<close>

theorem related_locations_follow_citation_order:
  "(list_all2 (\<lambda>c ls. chunkLocations toDouble c = Inr ls) cs lss
      \<longrightarrow> relatedLocationsOf toDouble (JArr cs) = Inr (concat lss))
   \<and> (lookup kvs (js ''maps'') = JObj mkvs \<and> lookup mkvs (js ''uri'') = JStr u
      \<longrightarrow> chunkLocations toDouble (JObj kvs) = Inr (uriLocations toDouble u))
   \<and> (isNullish (lookup kvs (js ''maps'')) \<longrightarrow> chunkLocations toDouble (JObj kvs) = Inr [])
   \<and> length (uriLocations toDouble u) \<le> 1
   \<and> ((\<forall>i \<le> length u. \<not> startsMapsPair (drop i u)) \<longrightarrow> uriLocations toDouble u = [])
   \<and> (isNumberText g1 \<and> isNumberText g2
       \<and> (post = [] \<or> (\<not> isDigit (hd post) \<and> hd post \<noteq> 46))
       \<and> (\<forall>i < length pre.
             \<not> startsMapsPair (drop i (pre @ js ''!3d'' @ g1 @ js ''!4d'' @ g2 @ post)))
      \<longrightarrow> uriLocations toDouble (pre @ js ''!3d'' @ g1 @ js ''!4d'' @ g2 @ post)
            = (if parseFloat toDouble g1 \<noteq> NaN \<and> parseFloat toDouble g2 \<noteq> NaN
               then [geoLocation (parseFloat toDouble g1) (parseFloat toDouble g2)] else []))
   \<and> (modelMessage toDouble uuid now response = Inr message
       \<and> relatedLocationsOf toDouble (groundingChunks response) = Inr ls
      \<longrightarrow> propOf message (js ''relatedLocations'') = (if ls = [] then JUndefined else JArr ls))
   \<and> (toDouble 35.6895 \<noteq> NaN \<and> toDouble 139.6917 \<noteq> NaN
      \<longrightarrow> relatedLocationsOf toDouble
            (JArr [placeCitation (js ''https://maps.google.com/?cid=7!3d35.6895!4d139.6917'')])
          = Inr [geoLocation (toDouble 35.6895) (toDouble 139.6917)])"
proof (intro conjI impI)
  assume "list_all2 (\<lambda>c ls. chunkLocations toDouble c = Inr ls) cs lss"
  then show "relatedLocationsOf toDouble (JArr cs) = Inr (concat lss)"
    by (simp add: relatedLocationsOf_array forEachChunk_concat)
next
  assume "lookup kvs (js ''maps'') = JObj mkvs \<and> lookup mkvs (js ''uri'') = JStr u"
  then show "chunkLocations toDouble (JObj kvs) = Inr (uriLocations toDouble u)"
    by (simp add: chunkLocations_place)
next
  assume "isNullish (lookup kvs (js ''maps''))"
  then show "chunkLocations toDouble (JObj kvs) = Inr []"
    by (rule chunkLocations_web)
next
  show "length (uriLocations toDouble u) \<le> 1" by (rule uriLocations_length)
next
  assume "\<forall>i \<le> length u. \<not> startsMapsPair (drop i u)"
  then show "uriLocations toDouble u = []"
    by (simp add: uriLocations_def no_pair_no_match)
next
  assume a: "isNumberText g1 \<and> isNumberText g2
       \<and> (post = [] \<or> (\<not> isDigit (hd post) \<and> hd post \<noteq> 46))
       \<and> (\<forall>i < length pre.
             \<not> startsMapsPair (drop i (pre @ js ''!3d'' @ g1 @ js ''!4d'' @ g2 @ post)))"
  show "uriLocations toDouble (pre @ js ''!3d'' @ g1 @ js ''!4d'' @ g2 @ post)
            = (if parseFloat toDouble g1 \<noteq> NaN \<and> parseFloat toDouble g2 \<noteq> NaN
               then [geoLocation (parseFloat toDouble g1) (parseFloat toDouble g2)] else [])"
    by (rule uriLocations_first_pair) (use a in blast)+
next
  assume a: "modelMessage toDouble uuid now response = Inr message
       \<and> relatedLocationsOf toDouble (groundingChunks response) = Inr ls"
  show "propOf message (js ''relatedLocations'') = (if ls = [] then JUndefined else JArr ls)"
    by (rule modelMessage_related) (use a in blast)+
next
  assume "toDouble 35.6895 \<noteq> NaN \<and> toDouble 139.6917 \<noteq> NaN"
  then show "relatedLocationsOf toDouble
            (JArr [placeCitation (js ''https://maps.google.com/?cid=7!3d35.6895!4d139.6917'')])
          = Inr [geoLocation (toDouble 35.6895) (toDouble 139.6917)]"
    by (simp add: relatedLocationsOf_array chunkLocations_placeCitation example_uri)
qed

theorem related_locations_follow_citation_order_witness:
  "relatedLocationsOf Finite
     (JArr [placeCitation (js ''https://maps.google.com/?cid=7!3d35.6895!4d139.6917''),
            webCitation (js ''https://example.org/''),
            placeCitation (js ''https://maps.google.com/?cid=8''),
            placeCitation (js ''https://maps.google.com/?q=!3d-33.8688!4d151.2093&z=3'')])
   = Inr [geoLocation (Finite 35.6895) (Finite 139.6917),
          geoLocation (Finite (- 33.8688)) (Finite 151.2093)]"
proof -
  note claim = related_locations_follow_citation_order
  have c1: "chunkLocations Finite
              (placeCitation (js ''https://maps.google.com/?cid=7!3d35.6895!4d139.6917''))
            = Inr [geoLocation (Finite 35.6895) (Finite 139.6917)]"
    by (simp add: chunkLocations_placeCitation example_uri)
  have c2: "chunkLocations Finite (webCitation (js ''https://example.org/'')) = Inr []"
    by (rule chunkLocations_webCitation)
  have nb3: "33 \<notin> set (js ''https://maps.google.com/?cid=8'')" by (simp add: js_def)
  have "\<forall>i \<le> length (js ''https://maps.google.com/?cid=8'').
          \<not> startsMapsPair (drop i (js ''https://maps.google.com/?cid=8''))"
  proof (intro allI impI notI)
    fix i assume "startsMapsPair (drop i (js ''https://maps.google.com/?cid=8''))"
    from pair_starts_with_bang[OF this] obtain r where
      "drop i (js ''https://maps.google.com/?cid=8'') = 33 # r" by blast
    then have "33 \<in> set (drop i (js ''https://maps.google.com/?cid=8''))" by simp
    then have "33 \<in> set (js ''https://maps.google.com/?cid=8'')" by (rule in_set_dropD)
    with nb3 show False by simp
  qed
  from claim[THEN conjunct2, THEN conjunct2, THEN conjunct2, THEN conjunct2, THEN conjunct1,
           THEN mp, OF this, of Finite]
  have c3: "chunkLocations Finite (placeCitation (js ''https://maps.google.com/?cid=8'')) = Inr []"
    by (simp add: chunkLocations_placeCitation)
  have n: "isNumberText (js ''-33.8688'')" "isNumberText (js ''151.2093'')"
    "parseFloat Finite (js ''-33.8688'') = Finite (- 33.8688)"
    "parseFloat Finite (js ''151.2093'') = Finite 151.2093"
    unfolding isNumberText_iff_scan
    by (simp_all add: scanNumber_def parseFloat_def js_def isDigit_def digitsValue_def)
  have split: "js ''https://maps.google.com/?q=!3d-33.8688!4d151.2093&z=3''
     = js ''https://maps.google.com/?q='' @ js ''!3d'' @ js ''-33.8688'' @ js ''!4d''
         @ js ''151.2093'' @ js ''&z=3''"
    by (simp add: js_def)
  have nb: "33 \<notin> set (js ''https://maps.google.com/?q='')" by (simp add: js_def)
  have post: "js ''&z=3'' = [] \<or> (\<not> isDigit (hd (js ''&z=3'')) \<and> hd (js ''&z=3'') \<noteq> 46)"
    by (simp add: js_def isDigit_def)
  from claim[THEN conjunct2, THEN conjunct2, THEN conjunct2, THEN conjunct2, THEN conjunct2,
           THEN conjunct1, rule_format,
           of "js ''-33.8688''" "js ''151.2093''" "js ''&z=3''" "js ''https://maps.google.com/?q=''"
              Finite]
       n(1,2) post no_bang_no_pair[OF nb]
  have "uriLocations Finite (js ''https://maps.google.com/?q=!3d-33.8688!4d151.2093&z=3'')
          = [geoLocation (Finite (- 33.8688)) (Finite 151.2093)]"
    unfolding split n(3,4) by simp
  then have c4: "chunkLocations Finite
        (placeCitation (js ''https://maps.google.com/?q=!3d-33.8688!4d151.2093&z=3''))
      = Inr [geoLocation (Finite (- 33.8688)) (Finite 151.2093)]"
    by (simp add: chunkLocations_placeCitation)
  have "list_all2 (\<lambda>c ls. chunkLocations Finite c = Inr ls)
          [placeCitation (js ''https://maps.google.com/?cid=7!3d35.6895!4d139.6917''),
            webCitation (js ''https://example.org/''),
            placeCitation (js ''https://maps.google.com/?cid=8''),
            placeCitation (js ''https://maps.google.com/?q=!3d-33.8688!4d151.2093&z=3'')]
          [[geoLocation (Finite 35.6895) (Finite 139.6917)], [], [],
           [geoLocation (Finite (- 33.8688)) (Finite 151.2093)]]"
    using c1 c2 c3 c4 by simp
  from claim[THEN conjunct1, rule_format, OF this] show ?thesis by simp
qed

text \<open>
  The claim as stated fails, since a pair is kept without being validated. With the exact
  conversion, the pair (100, 500) of a URI is kept though it lies outside
  \<open>[-90, 90] \<times> [-180, 180]\<close>; with a conversion that overflows as doubles do, a latitude
  of 310 digits is kept as \<^verbatim>\<open>Infinity\<close>, which both validators of the code reject.
\<close>

theorem unvalidated_pairs_are_kept:
  "relatedLocationsOf Finite (JArr [placeCitation (js ''https://maps.google.com/?q=!3d100!4d500'')])
     = Inr [geoLocation (Finite 100) (Finite 500)]
   \<and> \<not> (100 \<le> (90::rat)) \<and> \<not> (500 \<le> (180::rat))
   \<and> relatedLocationsOf ieeeOverflow
        (JArr [placeCitation (js ''!3d'' @ 49 # replicate 309 48 @ js ''!4d0'')])
     = Inr [geoLocation PosInfinity (Finite 0)]
   \<and> \<not> isValidLocation (geoLocation PosInfinity (Finite 0))
   \<and> \<not> isValidStoredLoc (geoLocation PosInfinity (Finite 0))"
proof -
  have n: "isNumberText (js ''100'')" "isNumberText (js ''500'')" "isNumberText (js ''0'')"
    "parseFloat Finite (js ''100'') = Finite 100" "parseFloat Finite (js ''500'') = Finite 500"
    "parseFloat ieeeOverflow (js ''0'') = Finite 0"
    unfolding isNumberText_iff_scan
    by (simp_all add: scanNumber_def parseFloat_def js_def isDigit_def digitsValue_def
          ieeeOverflow_def)
  have split: "js ''https://maps.google.com/?q=!3d100!4d500''
     = js ''https://maps.google.com/?q='' @ js ''!3d'' @ js ''100'' @ js ''!4d'' @ js ''500'' @ []"
    by (simp add: js_def)
  have nb: "33 \<notin> set (js ''https://maps.google.com/?q='')" by (simp add: js_def)
  have 1: "uriLocations Finite (js ''https://maps.google.com/?q=!3d100!4d500'')
            = [geoLocation (Finite 100) (Finite 500)]"
    unfolding split
    by (subst uriLocations_first_pair[OF n(1,2) _ no_bang_no_pair[OF nb]]) (simp_all add: n)
  have split2: "js ''!3d'' @ 49 # replicate 309 48 @ js ''!4d0''
     = [] @ js ''!3d'' @ (49 # replicate 309 48) @ js ''!4d'' @ js ''0'' @ []"
    by (simp add: js_def)
  have 2: "uriLocations ieeeOverflow (js ''!3d'' @ 49 # replicate 309 48 @ js ''!4d0'')
            = [geoLocation PosInfinity (Finite 0)]"
    unfolding split2
    by (subst uriLocations_first_pair[OF big_number(1) n(3)]) (simp_all add: n big_number)
  have 3: "\<not> isValidLocation (geoLocation PosInfinity (Finite 0))"
    "\<not> isValidStoredLoc (geoLocation PosInfinity (Finite 0))"
    by (simp_all add: isValidLocation_def isValidStoredLoc_def geoLocation_def finiteNumber_def js_inj)
  show ?thesis
    using 3 by (simp add: relatedLocationsOf_array chunkLocations_placeCitation 1 2)
qed

text \<open>
  \<^bold>\<open>Claim C7.\<close> A send with blank text, or while a send is pending, is a no-op: the part
  of \<^verbatim>\<open>handleSendMessage\<close> that runs at the call returns the state as it is (no user
  message, the same conversation, sessions and map state) and makes no request; the whole
  handler leaves the state unchanged; and the pending request completes as it would have
  without the ignored call.
\<close>

theorem blank_or_pending_send_is_noop:
  assumes "trim (textToSend st textOverride) = [] \<or> isLoading st"
  shows "handleSendMessage_start st textOverride uuid now = (st, None)
         \<and> handleSendMessage toDouble generateContent ids stamps st textOverride = st
         \<and> handleSendMessage_settled (fst (handleSendMessage_start st textOverride uuid now))
              outcome uuid' now'
            = handleSendMessage_settled st outcome uuid' now'"
  using assms by (auto simp: handleSendMessage_start_def handleSendMessage_def)

theorem blank_or_pending_send_is_noop_witness:
  "trim (textToSend (idleState\<lparr>input := js ''hello'', isLoading := True\<rparr>) JUndefined) = js ''hello''
   \<and> handleSendMessage_start (idleState\<lparr>input := js ''hello'', isLoading := True\<rparr>) JUndefined
        (js ''u1'') (Finite 1)
       = (idleState\<lparr>input := js ''hello'', isLoading := True\<rparr>, None)
   \<and> trim (textToSend idleState (JStr (js ''  ''))) = []
   \<and> handleSendMessage Finite (\<lambda>contents loc. Inl (Error []))
        (js ''u1'', js ''u2'') (Finite 1, Finite 2) idleState (JStr (js ''  ''))
       = idleState"
proof -
  have p: "trim (textToSend (idleState\<lparr>input := js ''hello'', isLoading := True\<rparr>) JUndefined)
             = js ''hello''"
    by (simp add: textToSend_def trim_def isSpace_def js_def)
  have "isLoading (idleState\<lparr>input := js ''hello'', isLoading := True\<rparr>)" by simp
  then have a: "handleSendMessage_start (idleState\<lparr>input := js ''hello'', isLoading := True\<rparr>)
        JUndefined (js ''u1'') (Finite 1)
       = (idleState\<lparr>input := js ''hello'', isLoading := True\<rparr>, None)"
    using blank_or_pending_send_is_noop by blast
  have b: "trim (textToSend idleState (JStr (js ''  ''))) = []"
    by (simp add: textToSend_def trim_def isSpace_def js_def)
  then have c: "handleSendMessage Finite (\<lambda>contents loc. Inl (Error []))
        (js ''u1'', js ''u2'') (Finite 1, Finite 2) idleState (JStr (js ''  ''))
       = idleState"
    using blank_or_pending_send_is_noop by blast
  from p a b c show ?thesis by blast
qed

text \<open>
  \<^bold>\<open>Claim C8\<close> (as amended). When the call of the AI service fails, the completion of
  the send appends exactly one message, the fixed apology, which has no
  \<^verbatim>\<open>suggestedLocation\<close> and no \<^verbatim>\<open>relatedLocations\<close>; it leaves \<^verbatim>\<open>targetLocation\<close> and
  \<^verbatim>\<open>userLocation\<close> unchanged; and the resulting state is the same whatever the error
  was, so the text of the error is not in the conversation. The related locations handed
  to the map are those of the latest message of the model: after the failure that message
  is the apology, so they are absent, whatever was shown before.
\<close>

theorem failed_call_appends_fixed_apology:
  "handleSendMessage_settled st (Inl e) uuid now
     = st\<lparr>messages := messages st @ [apologyMessage uuid now], isLoading := False\<rparr>
   \<and> propOf (apologyMessage uuid now) (js ''text'') =
       JStr (js ''I'm having trouble connecting to my map data right now. Please try again.'')
   \<and> propOf (apologyMessage uuid now) (js ''suggestedLocation'') = JUndefined
   \<and> propOf (apologyMessage uuid now) (js ''relatedLocations'') = JUndefined
   \<and> targetLocation (handleSendMessage_settled st (Inl e) uuid now) = targetLocation st
   \<and> userLocation (handleSendMessage_settled st (Inl e) uuid now) = userLocation st
   \<and> relatedLocations (messages (handleSendMessage_settled st (Inl e) uuid now)) = Inr JUndefined
   \<and> handleSendMessage_settled st (Inl e) uuid now = handleSendMessage_settled st (Inl e') uuid now
   \<and> (trim (textToSend st textOverride) \<noteq> [] \<and> \<not> isLoading st
        \<and> historyContext (messages st @ [userMessage (fst ids) (fst stamps) (textToSend st textOverride)])
             = Inr contents
        \<and> generateContent contents
             (if truthy (targetLocation st) then targetLocation st else userLocation st) = Inl e
      \<longrightarrow> handleSendMessage toDouble generateContent ids stamps st textOverride
            = st\<lparr>messages := messages st
                      @ [userMessage (fst ids) (fst stamps) (textToSend st textOverride),
                         apologyMessage (snd ids) (snd stamps)],
                   input := [],
                   isLoading := False,
                   isMobileMapOpen := (if truthy textOverride \<and> isMobileMapOpen st then False
                                       else isMobileMapOpen st)\<rparr>)"
proof -
  have a: "handleSendMessage_settled st (Inl e) uuid now
     = st\<lparr>messages := messages st @ [apologyMessage uuid now], isLoading := False\<rparr>" for e
    by (simp add: handleSendMessage_settled_def)
  have b: "relatedLocations (messages (handleSendMessage_settled st (Inl e) uuid now)) = Inr JUndefined"
    by (simp add: a relatedLocations_after_apology)
  have c: "handleSendMessage toDouble generateContent ids stamps st textOverride
            = st\<lparr>messages := messages st
                      @ [userMessage (fst ids) (fst stamps) (textToSend st textOverride),
                         apologyMessage (snd ids) (snd stamps)],
                   input := [],
                   isLoading := False,
                   isMobileMapOpen := (if truthy textOverride \<and> isMobileMapOpen st then False
                                       else isMobileMapOpen st)\<rparr>"
    if "trim (textToSend st textOverride) \<noteq> []" "\<not> isLoading st"
       "historyContext (messages st @ [userMessage (fst ids) (fst stamps) (textToSend st textOverride)])
             = Inr contents"
       "generateContent contents
             (if truthy (targetLocation st) then targetLocation st else userLocation st) = Inl e"
    using that
    by (simp add: handleSendMessage_def handleSendMessage_start_def Let_def
          sendMessageToGemini_def handleSendMessage_settled_def)
  show ?thesis
    using a b c by (simp add: apology_fields)
qed

theorem failed_call_appends_fixed_apology_witness:
  "handleSendMessage Finite (\<lambda>contents loc. Inl (Error (js ''quota exceeded'')))
     (js ''u1'', js ''u2'') (Finite 1, Finite 2)
     (idleState\<lparr>input := js ''Where is the tower?''\<rparr>) JUndefined
   = idleState\<lparr>messages :=
        [userMessage (js ''u1'') (Finite 1) (js ''Where is the tower?''),
         apologyMessage (js ''u2'') (Finite 2)]\<rparr>"
proof -
  let ?st = "idleState\<lparr>input := js ''Where is the tower?''\<rparr>"
  have t: "textToSend ?st JUndefined = js ''Where is the tower?''"
    by (simp add: textToSend_def)
  have "trim (js ''Where is the tower?'') \<noteq> []"
    by (simp add: trim_def isSpace_def js_def)
  then have nb: "trim (textToSend ?st JUndefined) \<noteq> []"
    unfolding t .
  have nl: "\<not> isLoading ?st" by (simp add: idleState_def)
  have "list_all (\<lambda>m. \<not> isNullish m)
          (messages ?st @ [userMessage (fst (js ''u1'', js ''u2'')) (fst (Finite 1, Finite 2))
                             (textToSend ?st JUndefined)])"
    by (simp add: idleState_def userMessage_def)
  from historyContext_succeeds[OF this] obtain contents where
    h: "historyContext (messages ?st @ [userMessage (fst (js ''u1'', js ''u2''))
          (fst (Finite 1, Finite 2)) (textToSend ?st JUndefined)]) = Inr contents" by blast
  have g: "(\<lambda>contents loc. Inl (Error (js ''quota exceeded''))) contents
             (if truthy (targetLocation ?st) then targetLocation ?st else userLocation ?st)
           = (Inl (Error (js ''quota exceeded'')) :: jserror + gen_response)"
    by simp
  from failed_call_appends_fixed_apology[THEN conjunct2, THEN conjunct2, THEN conjunct2,
         THEN conjunct2, THEN conjunct2, THEN conjunct2, THEN conjunct2, THEN conjunct2,
         rule_format, OF conjI[OF nb conjI[OF nl conjI[OF h g]]], of Finite]
  show ?thesis
    by (simp add: textToSend_def idleState_def)
qed

text \<open>
  The claim as stated fails for the related locations of the map: before the failed call
  the latest message of the model has one, after it they are absent.
\<close>

theorem failed_call_clears_related_locations:
  "relatedLocations
     (messages (idleState\<lparr>messages :=
        [JObj [(js ''role'', JStr (js ''model'')),
               (js ''relatedLocations'', JArr [geoLocation (Finite 35.6895) (Finite 139.6917)])]],
        isLoading := True\<rparr>))
     = Inr (JArr [geoLocation (Finite 35.6895) (Finite 139.6917)])
   \<and> relatedLocations
       (messages (handleSendMessage_settled
          (idleState\<lparr>messages :=
             [JObj [(js ''role'', JStr (js ''model'')),
                    (js ''relatedLocations'', JArr [geoLocation (Finite 35.6895) (Finite 139.6917)])]],
             isLoading := True\<rparr>)
          (Inl (Error (js ''quota exceeded''))) (js ''u2'') (Finite 2)))
     = Inr JUndefined"
  by (simp add: relatedLocations_def isModelMessage_def handleSendMessage_settled_def
        apologyMessage_def js_inj)

text \<open>
  \<^bold>\<open>Claim C9\<close> (as amended). Switching to a session that exists replaces the active
  messages with the session's messages and recomputes \<^verbatim>\<open>targetLocation\<close> from the newest
  message that has a \<^verbatim>\<open>suggestedLocation\<close> at all (a truthy one): the target is that
  location when it passes the validator and is cleared when it does not, or when no
  message has one. Messages older than that one are not looked at. When every
  \<^verbatim>\<open>suggestedLocation\<close> that is present is valid, as in sessions loaded from storage, the
  target is the \<^verbatim>\<open>suggestedLocation\<close> of the newest message that has a valid one.
\<close>

theorem loadSession_restores_newest_present_location:
  assumes "findE (hasId sessionId) (sessions st) = Inr (Some session)"
      and "propOf session (js ''messages'') = JArr ms"
      and "list_all (\<lambda>m. \<not> isNullish m) ms"
  shows "loadSession st sessionId =
           Inr (st\<lparr>currentSessionId := JStr sessionId,
                   messages := ms,
                   targetLocation :=
                     (case find (\<lambda>m. truthy (propOf m (js ''suggestedLocation''))) (rev ms) of
                        None \<Rightarrow> JNull
                      | Some m \<Rightarrow>
                          if isValidStoredLoc (propOf m (js ''suggestedLocation''))
                          then propOf m (js ''suggestedLocation'') else JNull),
                   isSidebarOpen := False\<rparr>)
         \<and> (list_all (\<lambda>m. truthy (propOf m (js ''suggestedLocation''))
                           = isValidStoredLoc (propOf m (js ''suggestedLocation''))) ms
            \<longrightarrow> loadSession st sessionId =
                  Inr (st\<lparr>currentSessionId := JStr sessionId,
                          messages := ms,
                          targetLocation :=
                            (case find (\<lambda>m. isValidStoredLoc (propOf m (js ''suggestedLocation'')))
                                    (rev ms) of
                               None \<Rightarrow> JNull
                             | Some m \<Rightarrow> propOf m (js ''suggestedLocation'')),
                          isSidebarOpen := False\<rparr>))"
proof -
  have f: "findE hasSuggestedLocation (rev ms)
           = Inr (find (\<lambda>m. truthy (propOf m (js ''suggestedLocation''))) (rev ms))"
    using assms(3) by (intro findE_total hasSuggestedLocation_total) (simp add: list_all_iff)
  have 1: "loadSession st sessionId =
           Inr (st\<lparr>currentSessionId := JStr sessionId,
                   messages := ms,
                   targetLocation :=
                     (case find (\<lambda>m. truthy (propOf m (js ''suggestedLocation''))) (rev ms) of
                        None \<Rightarrow> JNull
                      | Some m \<Rightarrow>
                          if isValidStoredLoc (propOf m (js ''suggestedLocation''))
                          then propOf m (js ''suggestedLocation'') else JNull),
                   isSidebarOpen := False\<rparr>)"
    using assms(1,2) f
    by (auto simp: loadSession_def restoredTarget_def valid_truthy split: option.splits
             dest: find_Some_iff[THEN iffD1])
  have 2: "(case find (\<lambda>m. truthy (propOf m (js ''suggestedLocation''))) (rev ms) of
                        None \<Rightarrow> JNull
                      | Some m \<Rightarrow>
                          if isValidStoredLoc (propOf m (js ''suggestedLocation''))
                          then propOf m (js ''suggestedLocation'') else JNull)
          = (case find (\<lambda>m. isValidStoredLoc (propOf m (js ''suggestedLocation''))) (rev ms) of
                               None \<Rightarrow> JNull
                             | Some m \<Rightarrow> propOf m (js ''suggestedLocation''))"
    if "list_all (\<lambda>m. truthy (propOf m (js ''suggestedLocation''))
                           = isValidStoredLoc (propOf m (js ''suggestedLocation''))) ms"
  proof -
    have "find (\<lambda>m. truthy (propOf m (js ''suggestedLocation''))) (rev ms)
          = find (\<lambda>m. isValidStoredLoc (propOf m (js ''suggestedLocation''))) (rev ms)"
      using that by (intro find_cong_on) (simp add: list_all_iff)
    then show ?thesis
      by (auto split: option.splits dest: find_Some_iff[THEN iffD1])
  qed
  show ?thesis using 1 2 by simp
qed

theorem loadSession_restores_newest_present_location_witness:
  "loadSession
     (idleState\<lparr>sessions :=
        [JObj [(js ''id'', JStr (js ''a'')),
               (js ''messages'', JArr
                  [JObj [(js ''suggestedLocation'', geoLocation (Finite 1) (Finite 2))],
                   JObj [(js ''suggestedLocation'', geoLocation (Finite 3) (Finite 4))],
                   JObj [(js ''text'', JStr (js ''bye''))]])]],
        targetLocation := geoLocation (Finite 9) (Finite 9)\<rparr>)
     (js ''a'')
   = Inr (idleState\<lparr>sessions :=
        [JObj [(js ''id'', JStr (js ''a'')),
               (js ''messages'', JArr
                  [JObj [(js ''suggestedLocation'', geoLocation (Finite 1) (Finite 2))],
                   JObj [(js ''suggestedLocation'', geoLocation (Finite 3) (Finite 4))],
                   JObj [(js ''text'', JStr (js ''bye''))]])]],
        currentSessionId := JStr (js ''a''),
        messages :=
          [JObj [(js ''suggestedLocation'', geoLocation (Finite 1) (Finite 2))],
           JObj [(js ''suggestedLocation'', geoLocation (Finite 3) (Finite 4))],
           JObj [(js ''text'', JStr (js ''bye''))]],
        targetLocation := geoLocation (Finite 3) (Finite 4)\<rparr>)"
proof -
  let ?ms = "[JObj [(js ''suggestedLocation'', geoLocation (Finite 1) (Finite 2))],
              JObj [(js ''suggestedLocation'', geoLocation (Finite 3) (Finite 4))],
              JObj [(js ''text'', JStr (js ''bye''))]]"
  let ?session = "JObj [(js ''id'', JStr (js ''a'')), (js ''messages'', JArr ?ms)]"
  let ?st = "idleState\<lparr>sessions := [?session],
                          targetLocation := geoLocation (Finite 9) (Finite 9)\<rparr>"
  have f: "findE (hasId (js ''a'')) (sessions ?st) = Inr (Some ?session)"
    by (simp add: hasId_def)
  have m: "propOf ?session (js ''messages'') = JArr ?ms"
    by (simp add: js_inj)
  have n: "list_all (\<lambda>m. \<not> isNullish m) ?ms" by simp
  have t: "truthy (geoLocation a b)" for a b by (simp add: geoLocation_def)
  from loadSession_restores_newest_present_location[OF f m n, THEN conjunct1]
  show ?thesis
    by (simp add: js_inj t isValidStoredLoc_geoLocation idleState_def)
qed

text \<open>
  The claim as stated fails when the newest \<^verbatim>\<open>suggestedLocation\<close> is invalid and an older
  one is valid: the scan of the claim finds the older message, the code clears the
  target. Such a message is one the parser produces: with a number conversion that
  overflows as doubles do, a tag whose latitude has 310 digits gives the latitude
  \<^verbatim>\<open>Infinity\<close>.
\<close>

theorem newest_invalid_location_clears_target:
  "find (\<lambda>m. isValidStoredLoc (propOf m (js ''suggestedLocation'')))
     (rev [JObj [(js ''suggestedLocation'', geoLocation (Finite 1) (Finite 2))],
           JObj [(js ''suggestedLocation'', geoLocation PosInfinity (Finite 0))]])
     = Some (JObj [(js ''suggestedLocation'', geoLocation (Finite 1) (Finite 2))])
   \<and> loadSession
       (idleState\<lparr>sessions :=
          [JObj [(js ''id'', JStr (js ''a'')),
                 (js ''messages'', JArr
                    [JObj [(js ''suggestedLocation'', geoLocation (Finite 1) (Finite 2))],
                     JObj [(js ''suggestedLocation'', geoLocation PosInfinity (Finite 0))]])]]\<rparr>)
       (js ''a'')
     = Inr (idleState\<lparr>sessions :=
          [JObj [(js ''id'', JStr (js ''a'')),
                 (js ''messages'', JArr
                    [JObj [(js ''suggestedLocation'', geoLocation (Finite 1) (Finite 2))],
                     JObj [(js ''suggestedLocation'', geoLocation PosInfinity (Finite 0))]])]],
          currentSessionId := JStr (js ''a''),
          messages :=
            [JObj [(js ''suggestedLocation'', geoLocation (Finite 1) (Finite 2))],
             JObj [(js ''suggestedLocation'', geoLocation PosInfinity (Finite 0))]],
          targetLocation := JNull\<rparr>)
   \<and> suggestedLocationOf ieeeOverflow
       (js ''{{LAT:'' @ 49 # replicate 309 48 @ js '', LNG:0}}'')
     = geoLocation PosInfinity (Finite 0)"
proof -
  have t: "truthy (geoLocation a b)" for a b by (simp add: geoLocation_def)
  show ?thesis
    unfolding parser_yields_infinite_latitude
    by (simp add: loadSession_def hasId_def hasSuggestedLocation_def restoredTarget_def
          js_inj t isValidStoredLoc_geoLocation idleState_def)
qed

text \<open>
  \<^bold>\<open>Claim C10.\<close> When the service answers and the text of its response is absent or
  empty, the text of the returned message is exactly
  \<^verbatim>\<open>I couldn't find an answer for that.\<close>, and a message is returned whenever the
  extraction of the related locations does not throw. The request holds at most 10
  entries: they are the last \<open>min 10 n\<close> of the \<open>n\<close> messages of the history, in the
  order of the history, each as its role and text; the service is called with exactly
  these contents; and building them succeeds for every history without
  \<^verbatim>\<open>null\<close> entries.
\<close>

theorem empty_reply_falls_back_and_history_is_bounded:
  "fallbackText = js ''I couldn't find an answer for that.''
   \<and> ((response_text response = None \<or> response_text response = Some [])
        \<and> historyContext chatHistory = Inr contents
        \<and> generateContent contents loc = Inr response
        \<and> sendMessageToGemini toDouble generateContent uuid now chatHistory loc
            = Inr message
      \<longrightarrow> propOf message (js ''text'') = JStr fallbackText)
   \<and> ((response_text response = None \<or> response_text response = Some [])
        \<and> historyContext chatHistory = Inr contents
        \<and> generateContent contents loc = Inr response
        \<and> relatedLocationsOf toDouble (groundingChunks response) = Inr ls
      \<longrightarrow> (\<exists>message. sendMessageToGemini toDouble generateContent uuid now chatHistory
                        loc = Inr message))
   \<and> (historyContext chatHistory = Inr contents
      \<longrightarrow> length contents \<le> 10
          \<and> (\<exists>older recent. chatHistory = older @ recent
                \<and> length recent = min 10 (length chatHistory)
                \<and> contents = map (\<lambda>msg. JObj [(js ''role'', propOf msg (js ''role'')),
                      (js ''parts'', JArr [JObj [(js ''text'', propOf msg (js ''text''))]])])
                    recent)
          \<and> sendMessageToGemini toDouble generateContent uuid now chatHistory loc
              = (case generateContent contents loc of
                   Inl e \<Rightarrow> Inl (rethrow e)
                 | Inr response \<Rightarrow>
                     (case modelMessage toDouble uuid now response of
                        Inl e \<Rightarrow> Inl (rethrow e)
                      | Inr message \<Rightarrow> Inr message)))
   \<and> (list_all (\<lambda>m. \<not> isNullish m) chatHistory
      \<longrightarrow> (\<exists>contents. historyContext chatHistory = Inr contents))"
proof (intro conjI impI)
  show "fallbackText = js ''I couldn't find an answer for that.''"
    by (simp add: fallbackText_def)
next
  assume a: "(response_text response = None \<or> response_text response = Some [])
        \<and> historyContext chatHistory = Inr contents
        \<and> generateContent contents loc = Inr response
        \<and> sendMessageToGemini toDouble generateContent uuid now chatHistory loc
            = Inr message"
  then have "replyText response = fallbackText" by (simp add: replyText_fallback)
  with a show "propOf message (js ''text'') = JStr fallbackText"
    by (auto simp: sendMessageToGemini_def modelMessage_def fallback_clean js_inj
             split: sum.splits)
next
  assume a: "(response_text response = None \<or> response_text response = Some [])
        \<and> historyContext chatHistory = Inr contents
        \<and> generateContent contents loc = Inr response
        \<and> relatedLocationsOf toDouble (groundingChunks response) = Inr ls"
  then show "\<exists>message. sendMessageToGemini toDouble generateContent uuid now chatHistory
                        loc = Inr message"
    by (simp add: sendMessageToGemini_def modelMessage_def)
next
  assume a: "historyContext chatHistory = Inr contents"
  from historyContext_shape[OF a]
  show s: "\<exists>older recent. chatHistory = older @ recent
                \<and> length recent = min 10 (length chatHistory)
                \<and> contents = map (\<lambda>msg. JObj [(js ''role'', propOf msg (js ''role'')),
                      (js ''parts'', JArr [JObj [(js ''text'', propOf msg (js ''text''))]])])
                    recent" .
  then show "length contents \<le> 10" by auto
  from a show "sendMessageToGemini toDouble generateContent uuid now chatHistory loc
              = (case generateContent contents loc of
                   Inl e \<Rightarrow> Inl (rethrow e)
                 | Inr response \<Rightarrow>
                     (case modelMessage toDouble uuid now response of
                        Inl e \<Rightarrow> Inl (rethrow e)
                      | Inr message \<Rightarrow> Inr message))"
    by (simp add: sendMessageToGemini_def)
next
  assume "list_all (\<lambda>m. \<not> isNullish m) chatHistory"
  then show "\<exists>contents. historyContext chatHistory = Inr contents"
    by (rule historyContext_succeeds)
qed

theorem empty_reply_falls_back_and_history_is_bounded_witness:
  "historyContext (map (userMessage (js ''u'') (Finite 0))
       [js ''q1'', js ''q2'', js ''q3'', js ''q4'', js ''q5'', js ''q6'', js ''q7'', js ''q8'', js ''q9'',
        js ''q10'', js ''q11'', js ''q12''])
     = Inr (map (\<lambda>t. JObj [(js ''role'', JStr (js ''user'')),
                           (js ''parts'', JArr [JObj [(js ''text'', JStr t)]])])
       [js ''q3'', js ''q4'', js ''q5'', js ''q6'', js ''q7'', js ''q8'', js ''q9'',
        js ''q10'', js ''q11'', js ''q12''])
   \<and> sendMessageToGemini Finite
       (\<lambda>contents loc. Inr \<lparr>response_text = Some [], groundingChunks = JUndefined\<rparr>)
       (js ''u2'') (Finite 2)
       (map (userMessage (js ''u'') (Finite 0))
         [js ''q1'', js ''q2'', js ''q3'', js ''q4'', js ''q5'', js ''q6'', js ''q7'', js ''q8'', js ''q9'',
          js ''q10'', js ''q11'', js ''q12''])
       JNull
     = Inr (JObj
         [(js ''id'', JStr (js ''u2'')),
          (js ''role'', JStr (js ''model'')),
          (js ''text'', JStr (js ''I couldn't find an answer for that.'')),
          (js ''groundingChunks'', JUndefined),
          (js ''suggestedLocation'', JUndefined),
          (js ''relatedLocations'', JUndefined),
          (js ''timestamp'', JNum (Finite 2))])"
proof -
  note claim = empty_reply_falls_back_and_history_is_bounded
  let ?h = "map (userMessage (js ''u'') (Finite 0))
       [js ''q1'', js ''q2'', js ''q3'', js ''q4'', js ''q5'', js ''q6'', js ''q7'', js ''q8'', js ''q9'',
        js ''q10'', js ''q11'', js ''q12'']"
  let ?c = "map (\<lambda>t. JObj [(js ''role'', JStr (js ''user'')),
                           (js ''parts'', JArr [JObj [(js ''text'', JStr t)]])])
       [js ''q3'', js ''q4'', js ''q5'', js ''q6'', js ''q7'', js ''q8'', js ''q9'',
        js ''q10'', js ''q11'', js ''q12'']"
  let ?r = "\<lparr>response_text = Some [], groundingChunks = JUndefined\<rparr>"
  let ?g = "\<lambda>contents loc. Inr ?r :: jserror + gen_response"
  have tr: "trim (js s) = js s" if "s \<in> {''q1'', ''q2'', ''q3'', ''q4'', ''q5'', ''q6'', ''q7'', ''q8'',
      ''q9'', ''q10'', ''q11'', ''q12''}" for s
    using that by (auto simp: trim_def js_def isSpace_def)
  have h: "historyContext ?h = Inr ?c"
    by (simp add: historyContext_def historyEntry_def userMessage_def js_inj tr)
  have e: "response_text ?r = None \<or> response_text ?r = Some []" by simp
  have g: "?g ?c JNull = Inr ?r" by simp
  have rl: "relatedLocationsOf Finite (groundingChunks ?r) = Inr []"
    by (simp add: relatedLocationsOf_def)
  note inst = claim[where generateContent = "?g" and response = "?r" and contents = "?c"
      and loc = JNull and chatHistory = "?h" and toDouble = Finite and ls = "[]"
      and uuid = "js ''u2''" and now = "Finite 2"]
  from inst[THEN conjunct2, THEN conjunct2, THEN conjunct1, THEN mp,
            OF conjI[OF e conjI[OF h conjI[OF g rl]]]]
  obtain message where
    m: "sendMessageToGemini Finite ?g (js ''u2'') (Finite 2) ?h JNull = Inr message"
    by blast
  from inst[where message = message, THEN conjunct2, THEN conjunct1, THEN mp,
            OF conjI[OF e conjI[OF h conjI[OF g m]]]]
  have "propOf message (js ''text'') = JStr fallbackText" .
  moreover have "sendMessageToGemini Finite ?g (js ''u2'') (Finite 2) ?h JNull
     = Inr (JObj
         [(js ''id'', JStr (js ''u2'')),
          (js ''role'', JStr (js ''model'')),
          (js ''text'', JStr fallbackText),
          (js ''groundingChunks'', JUndefined),
          (js ''suggestedLocation'', JUndefined),
          (js ''relatedLocations'', JUndefined),
          (js ''timestamp'', JNum (Finite 2))])"
    unfolding sendMessageToGemini_def h
    by (simp add: modelMessage_def relatedLocationsOf_def replyText_def fallback_clean
          suggestedLocationOf_def fallback_has_no_tag)
  ultimately show ?thesis
    using h by (simp add: fallbackText_def)
qed

end
